theory Spec2Isabelle
  imports Complex_Main
begin

section \<open>Values: errors, floating results, tensors\<close>

text \<open>
  The metric library of \<^verbatim>\<open>src/scr/tasks/metrics.py\<close> works on tensors of the numeric
  framework. Tensor elements are modelled as real numbers (finite inputs). Arithmetic is
  exact except in the output normalizers of the likelihood losses, where the rounding and
  the underflow of the machine floats are written out, because the sign of their results
  depends on it. The non-finite results the source can produce from finite inputs (a
  division by zero, the logarithm of zero, the mean of an empty tensor) are kept: such
  results have type \<open>fnum\<close>. Every exception of the source is a value of type
  \<open>error\<close>.
\<close>

datatype error = AssertionError | IndexError | RuntimeError | ImportError

datatype fnum = Fin real | PInf | NInf | NaN

text \<open>Sequencing of steps that may raise: the first exception is the result.\<close>

definition ebind :: "error + 'a \<Rightarrow> ('a \<Rightarrow> error + 'b) \<Rightarrow> error + 'b" where
  "ebind m f = (case m of Inl e \<Rightarrow> Inl e | Inr x \<Rightarrow> f x)"

text \<open>A tensor is its shape and its elements in row-major order.\<close>

record 'a tensor =
  shape :: "nat list"
  elems :: "'a list"

definition mk :: "nat list \<Rightarrow> 'a list \<Rightarrow> 'a tensor" where
  "mk s d = \<lparr>shape = s, elems = d\<rparr>"

definition numel :: "'a tensor \<Rightarrow> nat" where
  "numel t = prod_list (shape t)"

definition ndim :: "'a tensor \<Rightarrow> nat" where
  "ndim t = length (shape t)"

definition well_formed :: "'a tensor \<Rightarrow> bool" where
  "well_formed t \<longleftrightarrow> length (elems t) = prod_list (shape t)"

text \<open>A 1-D tensor from a list, and a 2-D tensor from its rows (each of \<open>c\<close> columns).\<close>

definition vec :: "'a list \<Rightarrow> 'a tensor" where
  "vec xs = mk [length xs] xs"

definition of_rows :: "nat \<Rightarrow> 'a list list \<Rightarrow> 'a tensor" where
  "of_rows c rows = mk [length rows, c] (concat rows)"

definition tmap :: "('a \<Rightarrow> 'b) \<Rightarrow> 'a tensor \<Rightarrow> 'b tensor" where
  "tmap f t = mk (shape t) (map f (elems t))"

text \<open>\<^verbatim>\<open>t.squeeze(-1)\<close>: drops the last dimension when its size is 1.\<close>

definition squeeze_last :: "'a tensor \<Rightarrow> 'a tensor" where
  "squeeze_last t =
     (if shape t \<noteq> [] \<and> last (shape t) = 1 then mk (butlast (shape t)) (elems t) else t)"

text \<open>\<^verbatim>\<open>t[..., c]\<close>: channel \<open>c\<close> of the last dimension.\<close>

definition select_last :: "nat \<Rightarrow> 'a tensor \<Rightarrow> error + 'a tensor" where
  "select_last c t =
     (if shape t = [] then Inl IndexError
      else let C = last (shape t) in
        if c < C
        then Inr (mk (butlast (shape t))
                     (map (\<lambda>i. elems t ! (i * C + c)) [0..<prod_list (butlast (shape t))]))
        else Inl IndexError)"

subsection \<open>Broadcasting\<close>

fun bshape_rev :: "nat list \<Rightarrow> nat list \<Rightarrow> nat list option" where
  "bshape_rev [] ys = Some ys"
| "bshape_rev xs [] = Some xs"
| "bshape_rev (x # xs) (y # ys) =
     (if x = y \<or> y = 1 then map_option (Cons x) (bshape_rev xs ys)
      else if x = 1 then map_option (Cons y) (bshape_rev xs ys)
      else None)"

definition bshape :: "nat list \<Rightarrow> nat list \<Rightarrow> nat list option" where
  "bshape s1 s2 = map_option rev (bshape_rev (rev s1) (rev s2))"

fun expand :: "nat list \<Rightarrow> nat list \<Rightarrow> 'a list \<Rightarrow> 'a list" where
  "expand (a # s) (b # s') d =
     (let n = prod_list s;
          blocks = map (\<lambda>i. expand s s' (take n (drop (i * n) d))) [0..<a]
      in if a = b then concat blocks else concat (replicate b (concat blocks)))"
| "expand s s' d = d"

definition pad_shape :: "nat \<Rightarrow> nat list \<Rightarrow> nat list" where
  "pad_shape r s = replicate (r - length s) 1 @ s"

definition broadcast_to :: "nat list \<Rightarrow> 'a tensor \<Rightarrow> 'a list" where
  "broadcast_to s t = expand (pad_shape (length s) (shape t)) s (elems t)"

text \<open>An elementwise binary operation; shapes that do not broadcast raise.\<close>

definition tbin :: "('a \<Rightarrow> 'b \<Rightarrow> 'c) \<Rightarrow> 'a tensor \<Rightarrow> 'b tensor \<Rightarrow> error + 'c tensor" where
  "tbin f a b =
     (case bshape (shape a) (shape b) of
        None \<Rightarrow> Inl RuntimeError
      | Some s \<Rightarrow> Inr (mk s (map2 f (broadcast_to s a) (broadcast_to s b))))"

subsection \<open>Reductions\<close>

text \<open>\<^verbatim>\<open>t.mean()\<close> of a real tensor: the mean of no element is NaN.\<close>

definition mean :: "real list \<Rightarrow> fnum" where
  "mean xs = (if xs = [] then NaN else Fin (sum_list xs / real (length xs)))"

fun fneg :: "fnum \<Rightarrow> fnum" where
  "fneg (Fin x) = Fin (- x)"
| "fneg PInf = NInf"
| "fneg NInf = PInf"
| "fneg NaN = NaN"

subsection \<open>Arithmetic of floating results\<close>

text \<open>
  Sums, means and square roots of values that may be NaN or infinite follow IEEE 754:
  NaN absorbs, opposite infinities add to NaN, the mean of no element is NaN.
\<close>

fun fadd :: "fnum \<Rightarrow> fnum \<Rightarrow> fnum" where
  "fadd (Fin x) (Fin y) = Fin (x + y)"
| "fadd NaN b = NaN"
| "fadd a NaN = NaN"
| "fadd PInf NInf = NaN"
| "fadd NInf PInf = NaN"
| "fadd PInf b = PInf"
| "fadd a PInf = PInf"
| "fadd NInf b = NInf"
| "fadd a NInf = NInf"

definition fsum :: "fnum list \<Rightarrow> fnum" where
  "fsum xs = foldl fadd (Fin 0) xs"

definition fmean :: "fnum list \<Rightarrow> fnum" where
  "fmean xs =
     (if xs = [] then NaN
      else case fsum xs of Fin s \<Rightarrow> Fin (s / real (length xs)) | v \<Rightarrow> v)"

fun fsqrt :: "fnum \<Rightarrow> fnum" where
  "fsqrt (Fin x) = (if x < 0 then NaN else Fin (sqrt x))"
| "fsqrt PInf = PInf"
| "fsqrt NInf = NaN"
| "fsqrt NaN = NaN"

section \<open>Rounding to a floating-point format\<close>

text \<open>
  A binary floating-point format is given by its precision (the number of bits of the
  significand, the implicit one included) and by the exponent of its smallest normal
  number: \<open>binary32\<close>, the default element type of the framework, has precision 24
  and smallest normal number \<open>2 powr - 126\<close>; \<open>binary64\<close> has 53 and
  \<open>2 powr - 1022\<close>. Around a real \<open>x\<close> the numbers of the format are the
  multiples of \<open>ulp x\<close>, with gradual underflow below the smallest normal number.
  \<open>float_round\<close> is rounding to the nearest number of the format, ties to even.
  Overflow to infinity is not modelled; the values rounded in this theory are at most
  \<open>exp 20 + 2\<close>, far below the largest number of both formats.
\<close>

record float_format =
  precision :: nat
  emin :: int

definition binary32 :: float_format where
  "binary32 = \<lparr>precision = 24, emin = - 126\<rparr>"


definition round_even :: "real \<Rightarrow> int" where
  "round_even x =
     (let f = \<lfloor>x\<rfloor> in
      if x - of_int f < 1 / 2 then f
      else if 1 / 2 < x - of_int f then f + 1
      else if even f then f else f + 1)"

definition ulp :: "float_format \<Rightarrow> real \<Rightarrow> real" where
  "ulp fm x = 2 powr (of_int (max (emin fm) \<lfloor>log 2 \<bar>x\<bar>\<rfloor>) - (real (precision fm) - 1))"

definition float_round :: "float_format \<Rightarrow> real \<Rightarrow> real" where
  "float_round fm x = (if x = 0 then 0 else ulp fm x * of_int (round_even (x / ulp fm x)))"


section \<open>Output normalizers and likelihood losses\<close>

text \<open>
  \<^verbatim>\<open>F.softplus\<close> with its defaults \<open>beta = 1\<close>, \<open>threshold = 20\<close>: the framework
  returns the input itself above the threshold and \<^verbatim>\<open>log1p(exp(x))\<close> otherwise. The
  exponential is rounded to the format of the tensor, and so is the logarithm of one plus
  that rounded value (\<^verbatim>\<open>log1p\<close> does not round the sum). The sum
  \<^verbatim>\<open>2.0 + F.softplus(nu)\<close> is rounded as well.
\<close>

definition softplus :: "float_format \<Rightarrow> real \<Rightarrow> real" where
  "softplus fm x = (if x > 20 then x else float_round fm (ln (1 + float_round fm (exp x))))"

definition student_t_map ::
  "float_format \<Rightarrow> real tensor \<Rightarrow> real tensor \<Rightarrow> real tensor
   \<Rightarrow> real tensor \<times> real tensor \<times> real tensor" where
  "student_t_map fm mu sigma nu =
     (let sigma = tmap (softplus fm) sigma;
          nu = tmap (\<lambda>x. float_round fm (2 + softplus fm x)) nu
      in (squeeze_last mu, squeeze_last sigma, squeeze_last nu))"

text \<open>
  The Student-t log-density of one element, line by line as in \<^verbatim>\<open>student_t_loss\<close>.
  \<^verbatim>\<open>torch.lgamma\<close> is a function of the framework and a parameter here. With a scale
  of zero \<^verbatim>\<open>torch.log(sigma)\<close> is \<open>-\<infinity>\<close>, so \<open>Z\<close> is \<open>+\<infinity>\<close>, while
  \<open>part1\<close> is \<open>+\<infinity>\<close> or NaN, and the difference of the last line is NaN; the
  logarithm of a negative number is NaN.
\<close>

definition student_t_ll :: "(real \<Rightarrow> real) \<Rightarrow> real \<Rightarrow> real \<times> real \<times> real \<Rightarrow> fnum" where
  "student_t_ll lgamma y p =
     (case p of (mu, sigma, nu) \<Rightarrow>
        if sigma \<le> 0 \<or> nu \<le> 0 then NaN
        else
          let nup1_half = (nu + 1) / 2;
              part1 = 1 / nu * ((y - mu) / sigma)\<^sup>2;
              Z = lgamma nup1_half - lgamma (nu / 2) - 0.5 * ln (pi * nu) - ln sigma
          in Fin (Z - nup1_half * ln (1 + part1)))"

definition tzip3 :: "'a tensor \<Rightarrow> 'b tensor \<Rightarrow> 'c tensor \<Rightarrow> ('a \<times> 'b \<times> 'c) tensor" where
  "tzip3 a b c = mk (shape a) (zip (elems a) (zip (elems b) (elems c)))"

text \<open>
  The three channels have one shape, so every elementwise step between them keeps it;
  the only broadcast is the one of \<^verbatim>\<open>y - mu\<close>, and the log-likelihood tensor has the
  broadcast shape of \<open>y\<close> and \<open>mu\<close>.
\<close>

definition student_t_loss ::
  "float_format \<Rightarrow> (real \<Rightarrow> real) \<Rightarrow> real tensor \<Rightarrow> real tensor \<Rightarrow> error + fnum" where
  "student_t_loss fm lgamma outs y =
     ebind (select_last 0 outs) (\<lambda>mu.
     ebind (select_last 1 outs) (\<lambda>sigma.
     ebind (select_last 2 outs) (\<lambda>nu.
       let (mu, sigma, nu) = student_t_map fm mu sigma nu;
           y = squeeze_last y
       in ebind (tbin (student_t_ll lgamma) y (tzip3 mu sigma nu)) (\<lambda>ll.
          Inr (fneg (fmean (elems ll)))))))"

text \<open>The scale that \<^verbatim>\<open>gaussian_ll_loss\<close> feeds into the log-density.\<close>

definition gaussian_sigma :: "float_format \<Rightarrow> real tensor \<Rightarrow> real tensor" where
  "gaussian_sigma fm sigma = tmap (softplus fm) sigma"

text \<open>
  The Gaussian log-density of one element. With a scale of zero \<^verbatim>\<open>torch.log(sigma)\<close>
  is \<open>-\<infinity>\<close> and the squared term is \<open>+\<infinity>\<close> or NaN, so the sum is NaN; the
  logarithm of a negative number is NaN.
\<close>

definition gaussian_ll :: "real \<Rightarrow> real \<times> real \<Rightarrow> fnum" where
  "gaussian_ll y p =
     (case p of (mu, sigma) \<Rightarrow>
        if sigma \<le> 0 then NaN
        else Fin (- 1 * (ln sigma + 0.5 * ln (2 * pi) + 0.5 * ((y - mu) / sigma)\<^sup>2)))"

definition tzip :: "'a tensor \<Rightarrow> 'b tensor \<Rightarrow> ('a \<times> 'b) tensor" where
  "tzip a b = mk (shape a) (zip (elems a) (elems b))"

definition gaussian_ll_loss :: "float_format \<Rightarrow> real tensor \<Rightarrow> real tensor \<Rightarrow> error + fnum" where
  "gaussian_ll_loss fm outs y =
     ebind (select_last 0 outs) (\<lambda>mu.
     ebind (select_last 1 outs) (\<lambda>sigma.
       let y = squeeze_last y;
           sigma = gaussian_sigma fm sigma
       in ebind (tbin gaussian_ll y (tzip mu sigma)) (\<lambda>ll.
          Inr (fneg (fmean (elems ll))))))"

subsection \<open>Inputs of the likelihood losses, channel by channel\<close>

text \<open>
  An output tensor of shape \<open>sh @ [3]\<close> (or \<open>sh @ [2]\<close>) is given by the list of its
  channel tuples; \<open>reflect3\<close> and \<open>reflect2\<close> replace each mean \<open>mu\<close> by
  \<open>2 * y - mu\<close> and keep the raw scale and raw degrees of freedom.
\<close>

definition stack3 :: "('a \<times> 'a \<times> 'a) list \<Rightarrow> 'a list" where
  "stack3 ps = concat (map (\<lambda>(m, s, n). [m, s, n]) ps)"

definition stack2 :: "('a \<times> 'a) list \<Rightarrow> 'a list" where
  "stack2 ps = concat (map (\<lambda>(m, s). [m, s]) ps)"

definition reflect3 :: "(real \<times> real \<times> real) list \<Rightarrow> real list \<Rightarrow> (real \<times> real \<times> real) list" where
  "reflect3 ps ys = map2 (\<lambda>(m, s, n) yv. (2 * yv - m, s, n)) ps ys"

definition reflect2 :: "(real \<times> real) list \<Rightarrow> real list \<Rightarrow> (real \<times> real) list" where
  "reflect2 ps ys = map2 (\<lambda>(m, s) yv. (2 * yv - m, s)) ps ys"

section \<open>The metric registry\<close>

text \<open>
  The registry maps metric names to Python objects. A dictionary keeps insertion order
  and one entry per key, so it is an association list updated in place. Functions are
  named by the \<^verbatim>\<open>def\<close> that creates them; \<^verbatim>\<open>functools.partial\<close> objects keep
  the wrapped function and the bound keywords. The availability of the two names the
  optional block imports is the environment of the import.
\<close>

datatype kwval = KInt int | KReal real

datatype pyobj = Func string | Partial pyobj "(string \<times> kwval) list" | Num real

fun callable :: "pyobj \<Rightarrow> bool" where
  "callable (Func f) = True"
| "callable (Partial f kw) = True"
| "callable (Num x) = False"

type_synonym registry = "(string \<times> pyobj) list"

fun dict_set :: "registry \<Rightarrow> string \<Rightarrow> pyobj \<Rightarrow> registry" where
  "dict_set [] k v = [(k, v)]"
| "dict_set ((k', v') # d) k v = (if k' = k then (k', v) # d else (k', v') # dict_set d k v)"

definition dict_literal :: "(string \<times> pyobj) list \<Rightarrow> registry" where
  "dict_literal kvs = fold (\<lambda>(k, v) d. dict_set d k v) kvs []"

definition dict_merge :: "registry \<Rightarrow> registry \<Rightarrow> registry" where
  "dict_merge a b = fold (\<lambda>(k, v) d. dict_set d k v) b a"

definition dict_keys :: "registry \<Rightarrow> string list" where
  "dict_keys d = map fst d"

definition output_metric_fns_base :: registry where
  "output_metric_fns_base = dict_literal
     [(''binary_cross_entropy'', Func ''binary_cross_entropy''),
      (''cross_entropy'', Func ''cross_entropy''),
      (''binary_accuracy'', Func ''binary_accuracy''),
      (''accuracy'', Func ''accuracy''),
      (''accuracy@3'', Partial (Func ''accuracy_at_k'') [(''k'', KInt 3)]),
      (''accuracy@5'', Partial (Func ''accuracy_at_k'') [(''k'', KInt 5)]),
      (''accuracy@10'', Partial (Func ''accuracy_at_k'') [(''k'', KInt 10)]),
      (''eval_loss'', Func ''loss''),
      (''mse'', Func ''mse''),
      (''mae'', Func ''mae''),
      (''forecast_rmse'', Func ''forecast_rmse''),
      (''f1_binary'', Func ''f1_binary''),
      (''f1_macro'', Func ''f1_macro''),
      (''f1_micro'', Func ''f1_micro''),
      (''roc_auc_macro'', Func ''roc_auc_macro''),
      (''roc_auc_micro'', Func ''roc_auc_micro''),
      (''soft_cross_entropy'', Func ''soft_cross_entropy''),
      (''student_t'', Func ''student_t_loss''),
      (''gaussian_ll'', Func ''gaussian_ll_loss''),
      (''recall_binary'', Func ''recall_binary''),
      (''precision_binary'', Func ''precision_binary''),
      (''specificity_binary'', Func ''specificity_binary''),
      (''recall_multilabel'', Func ''recall_multilabel''),
      (''precision_multilabel'', Func ''precision_multilabel''),
      (''specificity_multilabel'', Func ''specificity_multilabel'')]"

text \<open>
  The \<^verbatim>\<open>try\<close> block: both imports come first, so an \<^verbatim>\<open>ImportError\<close> leaves the
  dictionary as it was; \<^verbatim>\<open>except ImportError: pass\<close> swallows exactly that error.
\<close>

record environment =
  has_iou :: bool
  has_focal_loss_with_logits :: bool

definition import_from :: "bool \<Rightarrow> string \<Rightarrow> error + pyobj" where
  "import_from available name = (if available then Inr (Func name) else Inl ImportError)"

definition segmentation_block :: "environment \<Rightarrow> registry \<Rightarrow> error + registry" where
  "segmentation_block env d =
     ebind (import_from (has_iou env) ''iou'') (\<lambda>iou.
     ebind (import_from (has_focal_loss_with_logits env) ''focal_loss_with_logits'') (\<lambda>focal.
       let iou_with_logits = Func ''iou_with_logits'';
           d = dict_set d ''iou'' (Partial iou [(''threshold'', KReal 0.5)]);
           d = dict_set d ''iou_with_logits'' (Partial iou_with_logits [(''threshold'', KReal 0.5)]);
           d = dict_set d ''focal_loss'' focal
       in Inr d))"

definition loss_metric_fns :: registry where
  "loss_metric_fns = dict_literal
     [(''loss'', Func ''loss''), (''bpb'', Func ''bpb''), (''ppl'', Func ''ppl'')]"

record metrics_module =
  output_metric_fns :: registry
  metric_fns :: registry

definition import_metrics :: "environment \<Rightarrow> error + metrics_module" where
  "import_metrics env =
     ebind (case segmentation_block env output_metric_fns_base of
              Inl ImportError \<Rightarrow> Inr output_metric_fns_base
            | Inl e \<Rightarrow> Inl e
            | Inr d \<Rightarrow> Inr d) (\<lambda>out.
       Inr \<lparr>output_metric_fns = out, metric_fns = dict_merge out loss_metric_fns\<rparr>)"

definition segmentation_keys :: "string set" where
  "segmentation_keys = {''iou'', ''iou_with_logits'', ''focal_loss''}"

section \<open>Regression losses\<close>

text \<open>\<^verbatim>\<open>F.mse_loss\<close> and \<^verbatim>\<open>F.l1_loss\<close> with the default mean reduction.\<close>

definition mse_loss :: "real tensor \<Rightarrow> real tensor \<Rightarrow> error + fnum" where
  "mse_loss a b = ebind (tbin (\<lambda>x y. (x - y)\<^sup>2) a b) (\<lambda>d. Inr (mean (elems d)))"

definition l1_loss :: "real tensor \<Rightarrow> real tensor \<Rightarrow> error + fnum" where
  "l1_loss a b = ebind (tbin (\<lambda>x y. \<bar>x - y\<bar>) a b) (\<lambda>d. Inr (mean (elems d)))"

text \<open>\<^verbatim>\<open>torch.zeros_like(outs, dtype=torch.bool)\<close>.\<close>

definition zeros_like :: "'a tensor \<Rightarrow> bool tensor" where
  "zeros_like t = tmap (\<lambda>_. False) t"

text \<open>
  The end of the Python slice \<^verbatim>\<open>:l\<close> on an axis of size \<open>n\<close>: a negative bound
  counts from the end, and every bound is clamped to the axis.
\<close>

definition slice_stop :: "int \<Rightarrow> nat \<Rightarrow> nat" where
  "slice_stop l n = (if l < 0 then nat (max 0 (int n + l)) else min (nat l) n)"

text \<open>
  \<^verbatim>\<open>mask[i, :l, :] = 1\<close>. Three indices need at least three dimensions, and \<open>i\<close>
  has to be inside the first one; the assignment sets the first \<open>slice_stop l t\<close>
  time-steps of block \<open>i\<close>.
\<close>

definition mask_assign :: "bool tensor \<Rightarrow> nat \<Rightarrow> int \<Rightarrow> error + bool tensor" where
  "mask_assign msk i l =
     (case shape msk of
        b # t # c # rest \<Rightarrow>
          if i < b then
            let inner = prod_list (c # rest);
                n = t * inner;
                k = slice_stop l t * inner
            in Inr (mk (shape msk)
                  (take (i * n) (elems msk) @ replicate k True @ drop (i * n + k) (elems msk)))
          else Inl IndexError
      | _ \<Rightarrow> Inl IndexError)"

text \<open>\<^verbatim>\<open>for i, l in enumerate(len_batch): mask[i, :l, :] = 1\<close>.\<close>

fun mask_loop :: "bool tensor \<Rightarrow> nat \<Rightarrow> int list \<Rightarrow> error + bool tensor" where
  "mask_loop msk i [] = Inr msk"
| "mask_loop msk i (l # ls) = ebind (mask_assign msk i l) (\<lambda>msk. mask_loop msk (Suc i) ls)"

text \<open>
  \<^verbatim>\<open>torch.masked_select\<close>: the tensor and the mask are broadcast, the selected
  elements come back as a 1-D tensor in row-major order.
\<close>

definition masked_select :: "'a tensor \<Rightarrow> bool tensor \<Rightarrow> error + 'a tensor" where
  "masked_select x msk =
     ebind (tbin (\<lambda>v m. (v, m)) x msk) (\<lambda>p. Inr (vec (map fst (filter snd (elems p)))))"

text \<open>
  \<^verbatim>\<open>mse\<close> and \<^verbatim>\<open>mae\<close> are the same code around a different base loss:
  \<open>shape_policy\<close> is their first \<^verbatim>\<open>if\<close> (the assertion and the squeeze),
  \<open>regression_tail\<close> the rest (the \<^verbatim>\<open>len_batch\<close> branch).
\<close>

definition regression_tail ::
  "(real tensor \<Rightarrow> real tensor \<Rightarrow> error + fnum) \<Rightarrow> real tensor \<Rightarrow> real tensor \<Rightarrow> int list option
   \<Rightarrow> error + fnum" where
  "regression_tail base outs y len_batch =
     (case len_batch of
        None \<Rightarrow> base outs y
      | Some lens \<Rightarrow>
          ebind (mask_loop (zeros_like outs) 0 lens) (\<lambda>msk.
          ebind (masked_select outs msk) (\<lambda>outs_masked.
          ebind (masked_select y msk) (\<lambda>y_masked.
            base outs_masked y_masked))))"

definition shape_policy :: "real tensor \<Rightarrow> real tensor \<Rightarrow> error + real tensor" where
  "shape_policy outs y =
     (if ndim y < ndim outs
      then (if last (shape outs) = 1 then Inr (squeeze_last outs) else Inl AssertionError)
      else Inr outs)"

definition mse :: "real tensor \<Rightarrow> real tensor \<Rightarrow> int list option \<Rightarrow> error + fnum" where
  "mse outs y len_batch =
     ebind (shape_policy outs y) (\<lambda>outs. regression_tail mse_loss outs y len_batch)"

definition mae :: "real tensor \<Rightarrow> real tensor \<Rightarrow> int list option \<Rightarrow> error + fnum" where
  "mae outs y len_batch =
     ebind (shape_policy outs y) (\<lambda>outs. regression_tail l1_loss outs y len_batch)"

text \<open>
  A tensor of shape (batch, time, channel) from its nested lists, the elements of the
  first \<open>length[i]\<close> time-steps of each sequence \<open>i\<close> in order, the check that
  nested lists have that shape, and the mask of one sequence after the loop.
\<close>

definition of_blocks :: "nat \<Rightarrow> nat \<Rightarrow> 'a list list list \<Rightarrow> 'a tensor" where
  "of_blocks t c xsss = mk [length xsss, t, c] (concat (map concat xsss))"

definition valid_steps :: "'a list list list \<Rightarrow> int list \<Rightarrow> 'a list" where
  "valid_steps xsss lens = concat (map2 (\<lambda>xss l. concat (take (nat l) xss)) xsss lens)"

definition shaped3 :: "nat \<Rightarrow> nat \<Rightarrow> 'a list list list \<Rightarrow> bool" where
  "shaped3 t c xsss \<longleftrightarrow> list_all (\<lambda>xss. length xss = t \<and> list_all (\<lambda>r. length r = c) xss) xsss"

definition mask_block :: "nat \<Rightarrow> nat \<Rightarrow> int \<Rightarrow> bool list" where
  "mask_block t c l = replicate (slice_stop l t * c) True @ replicate ((t - slice_stop l t) * c) False"

section \<open>Forecast RMSE\<close>

text \<open>
  \<^verbatim>\<open>t.mean(1)\<close>: the mean over the second axis, which has to exist. Element
  \<open>(i, j)\<close> of the result is the mean over \<open>k\<close> of element \<open>(i, k, j)\<close>.
\<close>

definition mean_dim1 :: "real tensor \<Rightarrow> error + fnum tensor" where
  "mean_dim1 t =
     (case shape t of
        a # b # rest \<Rightarrow>
          let r = prod_list rest in
          Inr (mk (a # rest)
                 (concat (map (\<lambda>i. map (\<lambda>j. mean (map (\<lambda>k. elems t ! (i * (b * r) + k * r + j)) [0..<b]))
                                        [0..<r])
                              [0..<a])))
      | _ \<Rightarrow> Inl IndexError)"

text \<open>
  \<^verbatim>\<open>torch.sqrt(F.mse_loss(outs, y, reduction='none').mean(1)).mean()\<close>; the argument
  \<^verbatim>\<open>len_batch\<close> is not used.
\<close>

definition forecast_rmse :: "real tensor \<Rightarrow> real tensor \<Rightarrow> int list option \<Rightarrow> error + fnum" where
  "forecast_rmse outs y len_batch =
     ebind (tbin (\<lambda>a b. (a - b)\<^sup>2) outs y) (\<lambda>se.
     ebind (mean_dim1 se) (\<lambda>m.
       Inr (fmean (map fsqrt (elems m)))))"

text \<open>
  The two quantities of the specification, on the rows of a (series, time) matrix: the
  mean over series of the root of the mean over time of the squared error, and the root
  of the mean of all squared errors.
\<close>

definition per_series_rmse :: "real list list \<Rightarrow> real list list \<Rightarrow> fnum" where
  "per_series_rmse outs y =
     fmean (map2 (\<lambda>o_i y_i. fsqrt (mean (map2 (\<lambda>a b. (a - b)\<^sup>2) o_i y_i))) outs y)"

definition global_rmse :: "real list list \<Rightarrow> real list list \<Rightarrow> fnum" where
  "global_rmse outs y = fsqrt (mean (map2 (\<lambda>a b. (a - b)\<^sup>2) (concat outs) (concat y)))"

section \<open>Multi-label confusion-matrix metrics\<close>

text \<open>\<^verbatim>\<open>(logits.squeeze(-1) >= 0).float()\<close>: the predictions, 1 where the logit is at least 0.\<close>

definition threshold_logits :: "real tensor \<Rightarrow> real tensor" where
  "threshold_logits logits = tmap (\<lambda>x. if 0 \<le> x then 1 else 0) (squeeze_last logits)"

text \<open>
  \<^verbatim>\<open>t.sum(dim=0)\<close>: element \<open>j\<close> of the result is the sum over \<open>i\<close> of element
  \<open>(i, j)\<close>; on a scalar it is the scalar. \<^verbatim>\<open>torch.sum(t)\<close> adds all elements.
\<close>

definition sum_dim0 :: "real tensor \<Rightarrow> real tensor" where
  "sum_dim0 t =
     (case shape t of
        [] \<Rightarrow> t
      | a # rest \<Rightarrow>
          let r = prod_list rest in
          mk rest (map (\<lambda>j. sum_list (map (\<lambda>i. elems t ! (i * r + j)) [0..<a])) [0..<r]))"

definition sum_all :: "real tensor \<Rightarrow> real" where
  "sum_all t = sum_list (elems t)"

text \<open>Division of the framework: a zero divisor gives NaN or an infinity.\<close>

definition fdiv :: "real \<Rightarrow> real \<Rightarrow> fnum" where
  "fdiv a b = (if b = 0 then (if a = 0 then NaN else if 0 < a then PInf else NInf) else Fin (a / b))"

text \<open>
  The three functions, statement by statement; \<^verbatim>\<open>x[torch.isnan(x)] = 0.0\<close> replaces
  the NaN entries. \<^verbatim>\<open>recall_multilabel\<close> adds the products \<^verbatim>\<open>y_pred * (1 - y)\<close> to its
  denominator and \<^verbatim>\<open>precision_multilabel\<close> the products \<^verbatim>\<open>(1 - y_pred) * y\<close>, as the
  source does.
\<close>

definition specificity_multilabel :: "real tensor \<Rightarrow> real tensor \<Rightarrow> error + fnum" where
  "specificity_multilabel logits y =
     (let y_pred = threshold_logits logits in
      ebind (tbin (*) (tmap (\<lambda>p. 1 - p) y_pred) (tmap (\<lambda>v. 1 - v) y)) (\<lambda>tn.
      ebind (tbin (*) y_pred (tmap (\<lambda>v. 1 - v) y)) (\<lambda>fp.
        let true_negatives = sum_dim0 tn;
            false_positives = sum_dim0 fp
        in ebind (tbin (+) true_negatives false_positives) (\<lambda>denominator.
           ebind (tbin fdiv true_negatives denominator) (\<lambda>specificity.
             let specificity = tmap (\<lambda>v. if v = NaN then Fin 0 else v) specificity
             in Inr (fmean (elems specificity)))))))"

definition recall_multilabel :: "real tensor \<Rightarrow> real tensor \<Rightarrow> error + fnum" where
  "recall_multilabel logits y =
     (let epsilon = 1 / 10 ^ 7;
          y_pred = threshold_logits logits in
      ebind (tbin (*) y_pred y) (\<lambda>tp.
      ebind (tbin (*) y_pred (tmap (\<lambda>v. 1 - v) y)) (\<lambda>fp.
        let tp = sum_dim0 tp;
            fp = sum_dim0 fp
        in Inr (fdiv (sum_all tp) (sum_all tp + sum_all fp + epsilon)))))"

definition precision_multilabel :: "real tensor \<Rightarrow> real tensor \<Rightarrow> error + fnum" where
  "precision_multilabel logits y =
     (let epsilon = 1 / 10 ^ 7;
          y_pred = threshold_logits logits in
      ebind (tbin (*) y_pred y) (\<lambda>tp.
      ebind (tbin (*) (tmap (\<lambda>p. 1 - p) y_pred) y) (\<lambda>fn.
        let tp = sum_dim0 tp;
            fn = sum_dim0 fn
        in Inr (fdiv (sum_all tp) (sum_all tp + sum_all fn + epsilon)))))"

text \<open>
  The confusion counts of the specification on the rows of a (batch, label) matrix: per
  label \<open>j\<close> the samples predicted negative (positive) among the actual negatives, the
  ratio of a label with the value 0 where it is undefined, and the counts over all
  entries.
\<close>

definition true_negatives :: "real list list \<Rightarrow> real list list \<Rightarrow> nat \<Rightarrow> nat" where
  "true_negatives logits y j = length (filter (\<lambda>(x, t). \<not> 0 \<le> x ! j \<and> t ! j = 0) (zip logits y))"

definition false_positives :: "real list list \<Rightarrow> real list list \<Rightarrow> nat \<Rightarrow> nat" where
  "false_positives logits y j = length (filter (\<lambda>(x, t). 0 \<le> x ! j \<and> t ! j = 0) (zip logits y))"

definition label_specificity :: "real list list \<Rightarrow> real list list \<Rightarrow> nat \<Rightarrow> real" where
  "label_specificity logits y j =
     (if true_negatives logits y j + false_positives logits y j = 0 then 0
      else real (true_negatives logits y j)
           / (real (true_negatives logits y j) + real (false_positives logits y j)))"

definition tp_total :: "real list list \<Rightarrow> real list list \<Rightarrow> nat" where
  "tp_total logits y = length (filter (\<lambda>(x, t). 0 \<le> x \<and> t = 1) (zip (concat logits) (concat y)))"

definition fn_total :: "real list list \<Rightarrow> real list list \<Rightarrow> nat" where
  "fn_total logits y = length (filter (\<lambda>(x, t). \<not> 0 \<le> x \<and> t = 1) (zip (concat logits) (concat y)))"

definition fp_total :: "real list list \<Rightarrow> real list list \<Rightarrow> nat" where
  "fp_total logits y = length (filter (\<lambda>(x, t). 0 \<le> x \<and> t = 0) (zip (concat logits) (concat y)))"

definition binary_rows :: "real list list \<Rightarrow> bool" where
  "binary_rows y \<longleftrightarrow> list_all (list_all (\<lambda>v. v = 0 \<or> v = 1)) y"

section \<open>Accuracy and top-k accuracy\<close>

text \<open>
  \<^verbatim>\<open>logits.view(-1, logits.shape[-1])\<close>: a scalar has no last dimension, and a last
  dimension of size 0 leaves \<^verbatim>\<open>-1\<close> undetermined. \<^verbatim>\<open>y.view(-1)\<close> and
  \<^verbatim>\<open>y.unsqueeze(-1)\<close> change the shape only.
\<close>

definition view_rows :: "'a tensor \<Rightarrow> error + 'a tensor" where
  "view_rows t =
     (if shape t = [] then Inl IndexError
      else let c = last (shape t) in
        if c = 0 then Inl RuntimeError
        else Inr (mk [numel t div c, c] (elems t)))"

definition flatten :: "'a tensor \<Rightarrow> 'a tensor" where
  "flatten t = mk [numel t] (elems t)"

definition unsqueeze_last :: "'a tensor \<Rightarrow> 'a tensor" where
  "unsqueeze_last t = mk (shape t @ [1]) (elems t)"

text \<open>The rows along the last dimension, which the reductions below work on.\<close>

definition last_rows :: "'a tensor \<Rightarrow> 'a list list" where
  "last_rows t =
     (let c = last (shape t)
      in map (\<lambda>i. take c (drop (i * c) (elems t))) [0..<prod_list (butlast (shape t))])"

text \<open>
  The indices among \<open>rem\<close> at which \<open>xs\<close> is maximal. \<^verbatim>\<open>argmax\<close> returns the
  first of them, as the framework documents. \<^verbatim>\<open>topk\<close> selects a maximal index \<open>k\<close>
  times; the framework does not say which one it takes among equal values, so the choice
  is a parameter \<open>tie\<close> of the model.
\<close>

definition max_indices :: "real list \<Rightarrow> nat list \<Rightarrow> nat list" where
  "max_indices xs rem = filter (\<lambda>i. list_all (\<lambda>j. xs ! j \<le> xs ! i) rem) rem"

definition argmax_list :: "real list \<Rightarrow> nat" where
  "argmax_list xs = (case max_indices xs [0..<length xs] of [] \<Rightarrow> 0 | i # _ \<Rightarrow> i)"

fun topk_select :: "(nat list \<Rightarrow> nat) \<Rightarrow> real list \<Rightarrow> nat list \<Rightarrow> nat \<Rightarrow> nat list" where
  "topk_select tie xs rem 0 = []"
| "topk_select tie xs rem (Suc k) =
     (case max_indices xs rem of
        [] \<Rightarrow> []
      | c # cs \<Rightarrow>
          let i = (c # cs) ! (tie (c # cs) mod length (c # cs))
          in i # topk_select tie xs (removeAll i rem) k)"

definition topk_indices :: "(nat list \<Rightarrow> nat) \<Rightarrow> nat \<Rightarrow> real list \<Rightarrow> nat list" where
  "topk_indices tie k xs = topk_select tie xs [0..<length xs] k"

text \<open>
  \<^verbatim>\<open>t.argmax(dim=-1)\<close>, \<^verbatim>\<open>torch.topk(t, k, dim=-1)[1]\<close> and \<^verbatim>\<open>t.any(dim=-1)\<close>.
  A reduction over a dimension of size 0 raises, and so does \<open>k\<close> outside the
  dimension. The scalar cases are written out for totality; \<^verbatim>\<open>accuracy\<close> and
  \<^verbatim>\<open>accuracy_at_k\<close> reduce logits of two dimensions and comparisons of at least one.
\<close>

definition argmax_last :: "real tensor \<Rightarrow> error + nat tensor" where
  "argmax_last t =
     (if shape t = [] then Inr (mk [] [0])
      else if last (shape t) = 0 then Inl IndexError
      else Inr (mk (butlast (shape t)) (map argmax_list (last_rows t))))"

definition topk :: "(nat list \<Rightarrow> nat) \<Rightarrow> real tensor \<Rightarrow> int \<Rightarrow> error + nat tensor" where
  "topk tie t k =
     (if shape t = [] then (if k = 1 then Inr (mk [] [0]) else Inl RuntimeError)
      else if k < 0 \<or> int (last (shape t)) < k then Inl RuntimeError
      else Inr (mk (butlast (shape t) @ [nat k])
                  (concat (map (topk_indices tie (nat k)) (last_rows t)))))"

definition any_last :: "bool tensor \<Rightarrow> bool tensor" where
  "any_last t =
     (if shape t = [] then t
      else mk (butlast (shape t)) (map (list_ex (\<lambda>b. b)) (last_rows t)))"

text \<open>\<^verbatim>\<open>t.float().mean()\<close> of a boolean tensor.\<close>

definition float_mean :: "bool tensor \<Rightarrow> fnum" where
  "float_mean t = mean (map (\<lambda>b. if b then 1 else 0) (elems t))"

text \<open>
  \<^verbatim>\<open>accuracy\<close> and \<^verbatim>\<open>accuracy_at_k\<close> in three steps: the flattening of the logits,
  the Mixup branch \<^verbatim>\<open>if y.numel() > logits.shape[0]: y = y.argmax(dim=-1)\<close>
  (\<open>mixup_target\<close>), and the scoring of the last two lines (\<open>score_top1\<close>,
  \<open>score_topk\<close>). Arg-max indices are compared with the target as numbers.
\<close>

definition mixup_target :: "nat \<Rightarrow> real tensor \<Rightarrow> error + real tensor" where
  "mixup_target n y =
     (if n < numel y then ebind (argmax_last y) (\<lambda>a. Inr (tmap real a)) else Inr y)"

definition score_top1 :: "real tensor \<Rightarrow> real tensor \<Rightarrow> error + fnum" where
  "score_top1 logits y =
     (let y = flatten y in
      ebind (argmax_last logits) (\<lambda>pred.
      ebind (tbin (\<lambda>p t. real p = t) pred y) (\<lambda>hits.
        Inr (float_mean hits))))"

definition accuracy :: "real tensor \<Rightarrow> real tensor \<Rightarrow> error + fnum" where
  "accuracy logits y =
     ebind (view_rows logits) (\<lambda>logits.
     ebind (mixup_target (hd (shape logits)) y) (\<lambda>y.
       score_top1 logits y))"

definition score_topk :: "(nat list \<Rightarrow> nat) \<Rightarrow> int \<Rightarrow> real tensor \<Rightarrow> real tensor \<Rightarrow> error + fnum" where
  "score_topk tie k logits y =
     (let y = flatten y in
      ebind (topk tie logits k) (\<lambda>idx.
      ebind (tbin (\<lambda>p t. real p = t) idx (unsqueeze_last y)) (\<lambda>hits.
        Inr (float_mean (any_last hits)))))"

definition accuracy_at_k :: "(nat list \<Rightarrow> nat) \<Rightarrow> real tensor \<Rightarrow> real tensor \<Rightarrow> int \<Rightarrow> error + fnum" where
  "accuracy_at_k tie logits y k =
     ebind (view_rows logits) (\<lambda>logits.
     ebind (mixup_target (hd (shape logits)) y) (\<lambda>y.
       score_topk tie k logits y))"

text \<open>A row has a unique maximum when exactly one index is maximal.\<close>

definition unique_max :: "real list \<Rightarrow> bool" where
  "unique_max xs \<longleftrightarrow> length (max_indices xs [0..<length xs]) = 1"

section \<open>Basic facts\<close>

lemma elems_squeeze_last [simp]: "elems (squeeze_last t) = elems t"
  by (simp add: squeeze_last_def mk_def)

lemma elems_tmap [simp]: "elems (tmap f t) = map f (elems t)"
  by (simp add: tmap_def mk_def)

lemma shape_tmap [simp]: "shape (tmap f t) = shape t"
  by (simp add: tmap_def mk_def)

lemma ebind_Inl [simp]: "ebind (Inl e) f = Inl e"
  by (simp add: ebind_def)

lemma ebind_Inr [simp]: "ebind (Inr x) f = f x"
  by (simp add: ebind_def)

lemma shape_mk [simp]: "shape (mk s d) = s"
  by (simp add: mk_def)

lemma elems_mk [simp]: "elems (mk s d) = d"
  by (simp add: mk_def)

lemma bshape_rev_same: "bshape_rev s s = Some s"
  by (induction s) auto

lemma bshape_same: "bshape s s = Some s"
  by (simp add: bshape_def bshape_rev_same)

lemma concat_chunks: "concat (map (\<lambda>i. take n (drop (i * n) d)) [0..<a]) = take (a * n) d"
proof (induction a)
  case 0
  then show ?case by simp
next
  case (Suc a)
  have "take (a * n) d @ take n (drop (a * n) d) = take (a * n + n) d"
    by (simp add: take_add)
  with Suc show ?case by (simp add: add.commute)
qed

lemma expand_same: "length d = prod_list s \<Longrightarrow> expand s s d = d"
proof (induction s arbitrary: d)
  case Nil
  then show ?case by simp
next
  case (Cons a s)
  let ?n = "prod_list s"
  have h: "map (\<lambda>i. expand s s (take ?n (drop (i * ?n) d))) [0..<a]
        = map (\<lambda>i. take ?n (drop (i * ?n) d)) [0..<a]"
  proof (rule map_cong [OF refl])
    fix i assume "i \<in> set [0..<a]"
    then have "i < a" by simp
    then have "Suc i \<le> a" by simp
    then have "Suc i * ?n \<le> a * ?n" by (rule mult_le_mono1)
    with Cons.prems have "length (take ?n (drop (i * ?n) d)) = ?n" by simp
    then show "expand s s (take ?n (drop (i * ?n) d)) = take ?n (drop (i * ?n) d)"
      by (rule Cons.IH)
  qed
  have "expand (a # s) (a # s) d = take (a * ?n) d"
    unfolding expand.simps Let_def h concat_chunks by simp
  with Cons.prems show ?case by simp
qed

lemma pad_shape_same: "pad_shape (length s) s = s"
  by (simp add: pad_shape_def)

lemma tbin_same:
  "well_formed a \<Longrightarrow> well_formed b \<Longrightarrow> shape a = shape b \<Longrightarrow>
   tbin f a b = Inr (mk (shape a) (map2 f (elems a) (elems b)))"
  by (simp add: tbin_def bshape_same broadcast_to_def pad_shape_same expand_same well_formed_def)

lemma stack3_nth:
  "i < length ps \<Longrightarrow>
   stack3 ps ! (i * 3) = fst (ps ! i) \<and> stack3 ps ! Suc (i * 3) = fst (snd (ps ! i))
   \<and> stack3 ps ! Suc (Suc (i * 3)) = snd (snd (ps ! i))"
proof (induction ps arbitrary: i)
  case Nil
  then show ?case by simp
next
  case (Cons p ps)
  obtain m s n where p: "p = (m, s, n)" by (cases p) auto
  have unf: "stack3 ((m, s, n) # ps) = m # s # n # stack3 ps" by (simp add: stack3_def)
  show ?case
  proof (cases i)
    case 0
    then show ?thesis by (simp add: unf p)
  next
    case (Suc j)
    with Cons.prems have "j < length ps" by simp
    from Cons.IH [OF this] show ?thesis by (simp add: unf Suc p)
  qed
qed

lemma stack2_nth:
  "i < length ps \<Longrightarrow>
   stack2 ps ! (i * 2) = fst (ps ! i) \<and> stack2 ps ! Suc (i * 2) = snd (ps ! i)"
proof (induction ps arbitrary: i)
  case Nil
  then show ?case by simp
next
  case (Cons p ps)
  obtain m s where p: "p = (m, s)" by (cases p) auto
  have unf: "stack2 ((m, s) # ps) = m # s # stack2 ps" by (simp add: stack2_def)
  show ?case
  proof (cases i)
    case 0
    then show ?thesis by (simp add: unf p)
  next
    case (Suc j)
    with Cons.prems have "j < length ps" by simp
    from Cons.IH [OF this] show ?thesis by (simp add: unf Suc p)
  qed
qed

lemma stack3_channels:
  "map (\<lambda>i. stack3 ps ! (i * 3 + 0)) [0..<length ps] = map fst ps"
  "map (\<lambda>i. stack3 ps ! (i * 3 + 1)) [0..<length ps] = map (fst \<circ> snd) ps"
  "map (\<lambda>i. stack3 ps ! (i * 3 + 2)) [0..<length ps] = map (snd \<circ> snd) ps"
  by (rule nth_equalityI; simp add: stack3_nth)+

lemma stack2_channels:
  "map (\<lambda>i. stack2 ps ! (i * 2 + 0)) [0..<length ps] = map fst ps"
  "map (\<lambda>i. stack2 ps ! (i * 2 + 1)) [0..<length ps] = map snd ps"
  by (rule nth_equalityI; simp add: stack2_nth)+

lemma select_last_stack3:
  assumes "length ps = prod_list sh"
  shows "select_last 0 (mk (sh @ [3]) (stack3 ps)) = Inr (mk sh (map fst ps))"
    and "select_last 1 (mk (sh @ [3]) (stack3 ps)) = Inr (mk sh (map (fst \<circ> snd) ps))"
    and "select_last 2 (mk (sh @ [3]) (stack3 ps)) = Inr (mk sh (map (snd \<circ> snd) ps))"
  unfolding select_last_def Let_def using stack3_channels [of ps]
  by (simp_all flip: assms)

lemma select_last_stack2:
  assumes "length ps = prod_list sh"
  shows "select_last 0 (mk (sh @ [2]) (stack2 ps)) = Inr (mk sh (map fst ps))"
    and "select_last 1 (mk (sh @ [2]) (stack2 ps)) = Inr (mk sh (map snd ps))"
  unfolding select_last_def Let_def using stack2_channels [of ps]
  by (simp_all flip: assms)

section \<open>Rounding and underflow\<close>


























section \<open>Properties of the normalizers\<close>




section \<open>Symmetry of the likelihood losses in the residual\<close>

lemma student_t_ll_reflect:
  "student_t_ll lg y (2 * y - m, s, n) = student_t_ll lg y (m, s, n)"
proof -
  have "((y - (2 * y - m)) / s)\<^sup>2 = ((y - m) / s)\<^sup>2"
    by (simp add: power2_eq_square field_simps) 
  then show ?thesis by (simp add: student_t_ll_def Let_def)
qed

lemma gaussian_ll_reflect:
  "gaussian_ll y (2 * y - m, s) = gaussian_ll y (m, s)"
proof -
  have "((y - (2 * y - m)) / s)\<^sup>2 = ((y - m) / s)\<^sup>2"
    by (simp add: power2_eq_square field_simps) 
  then show ?thesis by (simp add: gaussian_ll_def)
qed

lemma shape_squeeze_last:
  "shape (squeeze_last t) = (if shape t \<noteq> [] \<and> last (shape t) = 1 then butlast (shape t) else shape t)"
  by (simp add: squeeze_last_def)

lemma prod_list_butlast: "s \<noteq> [] \<Longrightarrow> last s = 1 \<Longrightarrow> prod_list (butlast s) = prod_list s"
  by (induction s) auto

lemma wf_squeeze_last: "well_formed t \<Longrightarrow> well_formed (squeeze_last t)"
  by (simp add: well_formed_def squeeze_last_def prod_list_butlast)

lemma wf_mk: "well_formed (mk s d) \<longleftrightarrow> length d = prod_list s"
  by (simp add: well_formed_def)

lemma tbin_both_squeezed:
  assumes "length xs = prod_list sh" "length ys = prod_list sh"
      and "ysh = sh \<or> ysh = sh @ [1] \<and> (sh = [] \<or> last sh \<noteq> 1)"
  shows "tbin f (squeeze_last (mk ysh ys)) (mk (shape (squeeze_last (mk sh ms))) xs)
         = Inr (mk (shape (squeeze_last (mk sh ms))) (map2 f ys xs))"
proof -
  let ?a = "squeeze_last (mk ysh ys)" and ?b = "mk (shape (squeeze_last (mk sh ms))) xs"
  have sh: "shape ?a = shape ?b"
    using assms(3) by (auto simp: shape_squeeze_last)
  have "well_formed (mk ysh ys)" using assms by (auto simp: wf_mk)
  then have wa: "well_formed ?a" by (rule wf_squeeze_last)
  have "well_formed (squeeze_last (mk sh xs))" using assms by (intro wf_squeeze_last) (simp add: wf_mk)
  then have wb: "well_formed ?b" by (simp add: well_formed_def shape_squeeze_last)
  from tbin_same [OF wa wb sh] sh show ?thesis by simp
qed

lemma tbin_target_squeezed:
  assumes "length xs = prod_list sh" "length ys = prod_list sh"
      and "ysh = sh @ [1] \<or> ysh = sh \<and> (sh = [] \<or> last sh \<noteq> 1)"
  shows "tbin f (squeeze_last (mk ysh ys)) (mk sh xs) = Inr (mk sh (map2 f ys xs))"
proof -
  from assms(3) have "squeeze_last (mk ysh ys) = mk sh ys"
    by (auto simp: squeeze_last_def)
  moreover have "tbin f (mk sh ys) (mk sh xs) = Inr (mk sh (map2 f ys xs))"
    using tbin_same [of "mk sh ys" "mk sh xs" f] assms(1,2) by (simp add: wf_mk)
  ultimately show ?thesis by simp
qed

lemma student_t_loss_value:
  assumes "length ps = prod_list sh" "length ys = prod_list sh"
      and "ysh = sh \<or> ysh = sh @ [1] \<and> (sh = [] \<or> last sh \<noteq> 1)"
  shows "student_t_loss fm lg (mk (sh @ [3]) (stack3 ps)) (mk ysh ys)
         = Inr (fneg (fmean (map2 (student_t_ll lg) ys
                  (map (\<lambda>(m, s, n). (m, softplus fm s, float_round fm (2 + softplus fm n))) ps))))"
proof -
  let ?xs = "zip (map fst ps) (zip (map (softplus fm) (map (fst \<circ> snd) ps))
                (map (\<lambda>x. float_round fm (2 + softplus fm x)) (map (snd \<circ> snd) ps)))"
  have xs: "?xs = map (\<lambda>(m, s, n). (m, softplus fm s, float_round fm (2 + softplus fm n))) ps"
    by (rule nth_equalityI) (simp_all add: case_prod_beta)
  have t3: "tzip3 (squeeze_last (mk sh (map fst ps)))
              (squeeze_last (tmap (softplus fm) (mk sh (map (fst \<circ> snd) ps))))
              (squeeze_last (tmap (\<lambda>x. float_round fm (2 + softplus fm x)) (mk sh (map (snd \<circ> snd) ps))))
            = mk (shape (squeeze_last (mk sh (map fst ps)))) ?xs"
    by (simp add: tzip3_def)
  have len: "length ?xs = prod_list sh" using assms(1) by simp
  show ?thesis
    unfolding student_t_loss_def select_last_stack3 [OF assms(1)] ebind_Inr
      student_t_map_def Let_def prod.case t3 tbin_both_squeezed [OF len assms(2,3)]
    by (simp only: xs elems_mk)
qed

lemma gaussian_ll_loss_value:
  assumes "length ps = prod_list sh" "length ys = prod_list sh"
      and "ysh = sh @ [1] \<or> ysh = sh \<and> (sh = [] \<or> last sh \<noteq> 1)"
  shows "gaussian_ll_loss fm (mk (sh @ [2]) (stack2 ps)) (mk ysh ys)
         = Inr (fneg (fmean (map2 gaussian_ll ys (map (\<lambda>(m, s). (m, softplus fm s)) ps))))"
proof -
  let ?xs = "zip (map fst ps) (map (softplus fm) (map snd ps))"
  have xs: "?xs = map (\<lambda>(m, s). (m, softplus fm s)) ps"
    by (rule nth_equalityI) (simp_all add: case_prod_beta)
  have t2: "tzip (mk sh (map fst ps)) (gaussian_sigma fm (mk sh (map snd ps))) = mk sh ?xs"
    by (simp add: tzip_def gaussian_sigma_def)
  have len: "length ?xs = prod_list sh" using assms(1) by simp
  show ?thesis
    unfolding gaussian_ll_loss_def select_last_stack2 [OF assms(1)] ebind_Inr
      Let_def t2 tbin_target_squeezed [OF len assms(2,3)]
    by (simp only: xs elems_mk)
qed

lemma reflect3_ll:
  "length ps = length ys \<Longrightarrow>
   map2 (student_t_ll lg) ys
     (map (\<lambda>(m, s, n). (m, softplus fm s, float_round fm (2 + softplus fm n))) (reflect3 ps ys))
   = map2 (student_t_ll lg) ys
       (map (\<lambda>(m, s, n). (m, softplus fm s, float_round fm (2 + softplus fm n))) ps)"
  by (rule nth_equalityI) (simp_all add: reflect3_def case_prod_beta student_t_ll_reflect)

lemma reflect2_ll:
  "length ps = length ys \<Longrightarrow>
   map2 gaussian_ll ys (map (\<lambda>(m, s). (m, softplus fm s)) (reflect2 ps ys))
   = map2 gaussian_ll ys (map (\<lambda>(m, s). (m, softplus fm s)) ps)"
  by (rule nth_equalityI) (simp_all add: reflect2_def case_prod_beta gaussian_ll_reflect)

text \<open>
  Where the elements of the target correspond one to one to those of the mean channel
  after the squeezes of the function, replacing the mean channel \<open>mu\<close> by
  \<open>2 * y - mu\<close>, with the raw scale (and raw degrees of freedom) fixed, leaves the loss
  unchanged. \<^verbatim>\<open>student_t_loss\<close> squeezes the target and the three channels:
  the target may have the shape \<open>sh\<close> of the channel, or that shape with one more
  dimension of size 1 when \<open>sh\<close> does not end in 1. \<^verbatim>\<open>gaussian_ll_loss\<close> squeezes
  the target only: the target may have the shape \<open>sh\<close> with one more dimension of
  size 1, or the shape \<open>sh\<close> when \<open>sh\<close> does not end in 1.
\<close>

lemma student_t_loss_symmetric:
  assumes "length ps = prod_list sh" "length ys = prod_list sh"
      and "ysh = sh \<or> ysh = sh @ [1] \<and> (sh = [] \<or> last sh \<noteq> 1)"
  shows "student_t_loss fm lg (mk (sh @ [3]) (stack3 (reflect3 ps ys))) (mk ysh ys)
         = student_t_loss fm lg (mk (sh @ [3]) (stack3 ps)) (mk ysh ys)"
proof -
  have lp: "length (reflect3 ps ys) = prod_list sh"
    using assms by (simp add: reflect3_def)
  have e3: "length ps = length ys" using assms by simp
  show ?thesis
    unfolding student_t_loss_value [OF lp assms(2,3)] student_t_loss_value [OF assms]
      reflect3_ll [OF e3]
    by (rule refl)
qed

lemma gaussian_ll_loss_symmetric:
  assumes "length qs = prod_list sh" "length ys = prod_list sh"
      and "ysh = sh @ [1] \<or> ysh = sh \<and> (sh = [] \<or> last sh \<noteq> 1)"
  shows "gaussian_ll_loss fm (mk (sh @ [2]) (stack2 (reflect2 qs ys))) (mk ysh ys)
         = gaussian_ll_loss fm (mk (sh @ [2]) (stack2 qs)) (mk ysh ys)"
proof -
  have lq: "length (reflect2 qs ys) = prod_list sh"
    using assms by (simp add: reflect2_def)
  have e2: "length qs = length ys" using assms by simp
  show ?thesis
    unfolding gaussian_ll_loss_value [OF lq assms(2,3)] gaussian_ll_loss_value [OF assms]
      reflect2_ll [OF e2]
    by (rule refl)
qed

text \<open>
  On a target of exactly the shape (2, 1) of the mean channel \<^verbatim>\<open>student_t_loss\<close>,
  which squeezes the channels as well as the target, is symmetric.
\<close>

lemma student_t_loss_symmetric_at_channel_shape:
  "student_t_loss fm lg (mk [2, 1, 3] (stack3 (reflect3 [(0, 21, 21), (0, 21, 21)] [0, 1]))) (mk [2, 1] [0, 1])
   = student_t_loss fm lg (mk [2, 1, 3] (stack3 [(0, 21, 21), (0, 21, 21)])) (mk [2, 1] [0, 1])"
  using student_t_loss_symmetric [of "[(0, 21, 21), (0, 21, 21)]" "[2, 1]" "[0, 1]" "[2, 1]" fm lg]
  by simp

text \<open>
  Claim C8. \<^verbatim>\<open>gaussian_ll_loss\<close> squeezes the target but not the mean and scale
  channels. On an output of shape (2, 1, 2) with mean 0 and raw scale 21, and a target of
  shape (2, 1) with the values 0 and 1, the squeezed target of shape (2) broadcasts
  against the mean channel of shape (2, 1): every target meets every mean, the residuals
  are 0, 1, 0, 1, and after replacing each mean \<open>mu\<close> by \<open>2 * y - mu\<close> they are
  0, 1, -2, -1. The two losses differ.
\<close>

theorem gaussian_broadcast_not_symmetric:
  "gaussian_ll_loss binary32 (mk [2, 1, 2] (stack2 [(0, 21), (0, 21)])) (mk [2, 1] [0, 1])
     = Inr (Fin (ln 21 + ln (2 * pi) / 2 + 1 / 1764))
   \<and> gaussian_ll_loss binary32 (mk [2, 1, 2] (stack2 (reflect2 [(0, 21), (0, 21)] [0, 1]))) (mk [2, 1] [0, 1])
     = Inr (Fin (ln 21 + ln (2 * pi) / 2 + 1 / 588))
   \<and> gaussian_ll_loss binary32 (mk [2, 1, 2] (stack2 (reflect2 [(0, 21), (0, 21)] [0, 1]))) (mk [2, 1] [0, 1])
     \<noteq> gaussian_ll_loss binary32 (mk [2, 1, 2] (stack2 [(0, 21), (0, 21)])) (mk [2, 1] [0, 1])"
  by (simp add: gaussian_ll_loss_def select_last_def stack2_def reflect2_def squeeze_last_def
      gaussian_sigma_def tzip_def tbin_def bshape_def broadcast_to_def pad_shape_def
      upt_conv_Cons softplus_def gaussian_ll_def fmean_def fsum_def Let_def numeral_2_eq_2
      power2_eq_square)
    (simp add: field_simps)

section \<open>Registry assembly without the segmentation library\<close>

lemma output_metric_fns_base_keys:
  "dict_keys output_metric_fns_base =
     [''binary_cross_entropy'', ''cross_entropy'', ''binary_accuracy'', ''accuracy'',
      ''accuracy@3'', ''accuracy@5'', ''accuracy@10'', ''eval_loss'', ''mse'', ''mae'',
      ''forecast_rmse'', ''f1_binary'', ''f1_macro'', ''f1_micro'', ''roc_auc_macro'',
      ''roc_auc_micro'', ''soft_cross_entropy'', ''student_t'', ''gaussian_ll'',
      ''recall_binary'', ''precision_binary'', ''specificity_binary'', ''recall_multilabel'',
      ''precision_multilabel'', ''specificity_multilabel'']"
  by (simp add: output_metric_fns_base_def dict_literal_def dict_keys_def)

lemma dict_keys_set: "set (dict_keys (dict_set d k v)) = insert k (set (dict_keys d))"
  by (induction d k v rule: dict_set.induct) (auto simp: dict_keys_def)

lemma dict_keys_fold:
  "set (dict_keys (fold (\<lambda>(k, v) d. dict_set d k v) kvs d)) = set (map fst kvs) \<union> set (dict_keys d)"
  by (induction kvs arbitrary: d) (auto simp: dict_keys_set)

lemma callable_dict_set:
  "list_all (\<lambda>(k, v). callable v) d \<Longrightarrow> callable v \<Longrightarrow>
   list_all (\<lambda>(k, v). callable v) (dict_set d k v)"
  by (induction d k v rule: dict_set.induct) auto

lemma callable_fold:
  "list_all (\<lambda>(k, v). callable v) d \<Longrightarrow> list_all (\<lambda>(k, v). callable v) kvs \<Longrightarrow>
   list_all (\<lambda>(k, v). callable v) (fold (\<lambda>(k, v) d. dict_set d k v) kvs d)"
  by (induction kvs arbitrary: d) (auto simp: callable_dict_set)

lemma callable_base: "list_all (\<lambda>(k, v). callable v) output_metric_fns_base"
  unfolding output_metric_fns_base_def dict_literal_def
  by (rule callable_fold) simp_all

lemma callable_loss: "list_all (\<lambda>(k, v). callable v) loss_metric_fns"
  unfolding loss_metric_fns_def dict_literal_def
  by (rule callable_fold) simp_all

lemma import_unavailable:
  "\<not> (has_iou env \<and> has_focal_loss_with_logits env) \<Longrightarrow>
   import_metrics env = Inr \<lparr>output_metric_fns = output_metric_fns_base,
                            metric_fns = dict_merge output_metric_fns_base loss_metric_fns\<rparr>"
  by (auto simp: import_metrics_def segmentation_block_def import_from_def)

lemma import_available:
  "has_iou env \<Longrightarrow> has_focal_loss_with_logits env \<Longrightarrow>
   import_metrics env = Inr \<lparr>output_metric_fns =
       dict_set (dict_set (dict_set output_metric_fns_base
         ''iou'' (Partial (Func ''iou'') [(''threshold'', KReal 0.5)]))
         ''iou_with_logits'' (Partial (Func ''iou_with_logits'') [(''threshold'', KReal 0.5)]))
         ''focal_loss'' (Func ''focal_loss_with_logits''),
     metric_fns = dict_merge (dict_set (dict_set (dict_set output_metric_fns_base
         ''iou'' (Partial (Func ''iou'') [(''threshold'', KReal 0.5)]))
         ''iou_with_logits'' (Partial (Func ''iou_with_logits'') [(''threshold'', KReal 0.5)]))
         ''focal_loss'' (Func ''focal_loss_with_logits'')) loss_metric_fns\<rparr>"
  by (simp add: import_metrics_def segmentation_block_def import_from_def Let_def)

lemma keys_merge:
  "set (dict_keys (dict_merge d loss_metric_fns)) = set (dict_keys d) \<union> {''loss'', ''bpb'', ''ppl''}"
proof -
  have "set (dict_keys (dict_merge d loss_metric_fns))
        = set (map fst loss_metric_fns) \<union> set (dict_keys d)"
    unfolding dict_merge_def by (rule dict_keys_fold)
  moreover have "map fst loss_metric_fns = [''loss'', ''bpb'', ''ppl'']"
    by (simp add: loss_metric_fns_def dict_literal_def)
  ultimately show ?thesis by auto
qed

lemma seg_not_base:
  "segmentation_keys \<inter> (set (dict_keys output_metric_fns_base) \<union> {''loss'', ''bpb'', ''ppl''}) = {}"
  by (simp add: output_metric_fns_base_keys segmentation_keys_def)

lemma three_more_keys: "insert c (insert b (insert a B)) \<union> L = {a, b, c} \<union> (B \<union> L)"
  by blast

lemma absent_exactly:
  "S \<inter> X = {} \<Longrightarrow> KM = X \<Longrightarrow> KF = S \<union> X \<Longrightarrow>
   S \<inter> KM = {} \<and> S \<subseteq> KF \<and> KM = KF - S"
  by blast

lemma dict_set_absent: "k \<notin> set (dict_keys d) \<Longrightarrow> dict_set d k v = d @ [(k, v)]"
  by (induction d k v rule: dict_set.induct) (auto simp: dict_keys_def)

lemma dict_keys_append: "dict_keys (d @ [(k, v)]) = dict_keys d @ [k]"
  by (simp add: dict_keys_def)

lemma dict_keys_set_absent:
  "k \<notin> set (dict_keys d) \<Longrightarrow> dict_keys (dict_set d k v) = dict_keys d @ [k]"
  by (simp add: dict_set_absent dict_keys_append)

lemma merged_keys_without_segmentation:
  "dict_keys (dict_merge output_metric_fns_base loss_metric_fns) =
     [''binary_cross_entropy'', ''cross_entropy'', ''binary_accuracy'', ''accuracy'',
      ''accuracy@3'', ''accuracy@5'', ''accuracy@10'', ''eval_loss'', ''mse'', ''mae'',
      ''forecast_rmse'', ''f1_binary'', ''f1_macro'', ''f1_micro'', ''roc_auc_macro'',
      ''roc_auc_micro'', ''soft_cross_entropy'', ''student_t'', ''gaussian_ll'',
      ''recall_binary'', ''precision_binary'', ''specificity_binary'', ''recall_multilabel'',
      ''precision_multilabel'', ''specificity_multilabel'',
      ''loss'', ''bpb'', ''ppl'']"
  by (simp add: dict_merge_def loss_metric_fns_def dict_literal_def dict_keys_set_absent
      output_metric_fns_base_keys)

lemma merged_keys_with_segmentation:
  "dict_keys (dict_merge (dict_set (dict_set (dict_set output_metric_fns_base
         ''iou'' (Partial (Func ''iou'') [(''threshold'', KReal 0.5)]))
         ''iou_with_logits'' (Partial (Func ''iou_with_logits'') [(''threshold'', KReal 0.5)]))
         ''focal_loss'' (Func ''focal_loss_with_logits'')) loss_metric_fns) =
     [''binary_cross_entropy'', ''cross_entropy'', ''binary_accuracy'', ''accuracy'',
      ''accuracy@3'', ''accuracy@5'', ''accuracy@10'', ''eval_loss'', ''mse'', ''mae'',
      ''forecast_rmse'', ''f1_binary'', ''f1_macro'', ''f1_micro'', ''roc_auc_macro'',
      ''roc_auc_micro'', ''soft_cross_entropy'', ''student_t'', ''gaussian_ll'',
      ''recall_binary'', ''precision_binary'', ''specificity_binary'', ''recall_multilabel'',
      ''precision_multilabel'', ''specificity_multilabel'',
      ''iou'', ''iou_with_logits'', ''focal_loss'', ''loss'', ''bpb'', ''ppl'']"
  by (simp add: dict_merge_def loss_metric_fns_def dict_literal_def dict_keys_set_absent
      output_metric_fns_base_keys)

text \<open>
  Claim C7. When the segmentation library is not importable (either imported name is
  missing), importing the module succeeds; \<^verbatim>\<open>metric_fns\<close> then has exactly the 25
  entries of the dictionary literal and the 3 loss entries, in that order, every one of
  them callable. The registry built with the library present has the same keys and, in
  addition, \<^verbatim>\<open>iou\<close>, \<^verbatim>\<open>iou_with_logits\<close> and \<^verbatim>\<open>focal_loss\<close>: exactly these
  three are absent without the library.
\<close>

theorem registry_without_segmentation:
  assumes "\<not> (has_iou env \<and> has_focal_loss_with_logits env)"
  shows "\<exists>m full. import_metrics env = Inr m
           \<and> import_metrics \<lparr>has_iou = True, has_focal_loss_with_logits = True\<rparr> = Inr full
           \<and> dict_keys (metric_fns m) =
               [''binary_cross_entropy'', ''cross_entropy'', ''binary_accuracy'', ''accuracy'',
                ''accuracy@3'', ''accuracy@5'', ''accuracy@10'', ''eval_loss'', ''mse'', ''mae'',
                ''forecast_rmse'', ''f1_binary'', ''f1_macro'', ''f1_micro'', ''roc_auc_macro'',
                ''roc_auc_micro'', ''soft_cross_entropy'', ''student_t'', ''gaussian_ll'',
                ''recall_binary'', ''precision_binary'', ''specificity_binary'', ''recall_multilabel'',
                ''precision_multilabel'', ''specificity_multilabel'',
                ''loss'', ''bpb'', ''ppl'']
           \<and> dict_keys (metric_fns full) =
               [''binary_cross_entropy'', ''cross_entropy'', ''binary_accuracy'', ''accuracy'',
                ''accuracy@3'', ''accuracy@5'', ''accuracy@10'', ''eval_loss'', ''mse'', ''mae'',
                ''forecast_rmse'', ''f1_binary'', ''f1_macro'', ''f1_micro'', ''roc_auc_macro'',
                ''roc_auc_micro'', ''soft_cross_entropy'', ''student_t'', ''gaussian_ll'',
                ''recall_binary'', ''precision_binary'', ''specificity_binary'', ''recall_multilabel'',
                ''precision_multilabel'', ''specificity_multilabel'',
                ''iou'', ''iou_with_logits'', ''focal_loss'', ''loss'', ''bpb'', ''ppl'']
           \<and> list_all (\<lambda>(k, v). callable v) (metric_fns m)
           \<and> segmentation_keys \<inter> set (dict_keys (metric_fns m)) = {}
           \<and> segmentation_keys \<subseteq> set (dict_keys (metric_fns full))
           \<and> set (dict_keys (metric_fns m)) = set (dict_keys (metric_fns full)) - segmentation_keys"
proof -
  define out where "out = dict_set (dict_set (dict_set output_metric_fns_base
         ''iou'' (Partial (Func ''iou'') [(''threshold'', KReal 0.5)]))
         ''iou_with_logits'' (Partial (Func ''iou_with_logits'') [(''threshold'', KReal 0.5)]))
         ''focal_loss'' (Func ''focal_loss_with_logits'')"
  define m where "m = \<lparr>output_metric_fns = output_metric_fns_base,
             metric_fns = dict_merge output_metric_fns_base loss_metric_fns\<rparr>"
  define full where "full = \<lparr>output_metric_fns = out, metric_fns = dict_merge out loss_metric_fns\<rparr>"
  let ?env = "\<lparr>has_iou = True, has_focal_loss_with_logits = True\<rparr>"
  let ?X = "set (dict_keys output_metric_fns_base) \<union> {''loss'', ''bpb'', ''ppl''}"
  have im: "import_metrics env = Inr m"
    unfolding m_def by (rule import_unavailable [OF assms])
  have ifull: "import_metrics ?env = Inr full"
    unfolding full_def out_def by (rule import_available) simp_all
  have ko: "set (dict_keys out) = insert ''focal_loss'' (insert ''iou_with_logits'' (insert ''iou''
            (set (dict_keys output_metric_fns_base))))"
    unfolding out_def by (simp only: dict_keys_set)
  have "set (dict_keys (metric_fns full)) = set (dict_keys out) \<union> {''loss'', ''bpb'', ''ppl''}"
    unfolding full_def metrics_module.select_convs by (rule keys_merge)
  also have "\<dots> = segmentation_keys \<union> ?X"
    unfolding ko segmentation_keys_def by (rule three_more_keys)
  finally have kf: "set (dict_keys (metric_fns full)) = segmentation_keys \<union> ?X" .
  have km: "set (dict_keys (metric_fns m)) = ?X"
    unfolding m_def metrics_module.select_convs by (rule keys_merge)
  have c: "list_all (\<lambda>(k, v). callable v) (metric_fns m)"
    unfolding m_def metrics_module.select_convs dict_merge_def
    by (rule callable_fold [OF callable_base callable_loss])
  note A = absent_exactly [OF seg_not_base km kf]
  show ?thesis
  proof (intro exI conjI)
    show "import_metrics env = Inr m" by (rule im)
    show "import_metrics ?env = Inr full" by (rule ifull)
    show "dict_keys (metric_fns m) =
               [''binary_cross_entropy'', ''cross_entropy'', ''binary_accuracy'', ''accuracy'',
                ''accuracy@3'', ''accuracy@5'', ''accuracy@10'', ''eval_loss'', ''mse'', ''mae'',
                ''forecast_rmse'', ''f1_binary'', ''f1_macro'', ''f1_micro'', ''roc_auc_macro'',
                ''roc_auc_micro'', ''soft_cross_entropy'', ''student_t'', ''gaussian_ll'',
                ''recall_binary'', ''precision_binary'', ''specificity_binary'', ''recall_multilabel'',
                ''precision_multilabel'', ''specificity_multilabel'',
                ''loss'', ''bpb'', ''ppl'']"
      unfolding m_def metrics_module.select_convs by (rule merged_keys_without_segmentation)
    show "dict_keys (metric_fns full) =
               [''binary_cross_entropy'', ''cross_entropy'', ''binary_accuracy'', ''accuracy'',
                ''accuracy@3'', ''accuracy@5'', ''accuracy@10'', ''eval_loss'', ''mse'', ''mae'',
                ''forecast_rmse'', ''f1_binary'', ''f1_macro'', ''f1_micro'', ''roc_auc_macro'',
                ''roc_auc_micro'', ''soft_cross_entropy'', ''student_t'', ''gaussian_ll'',
                ''recall_binary'', ''precision_binary'', ''specificity_binary'', ''recall_multilabel'',
                ''precision_multilabel'', ''specificity_multilabel'',
                ''iou'', ''iou_with_logits'', ''focal_loss'', ''loss'', ''bpb'', ''ppl'']"
      unfolding full_def out_def metrics_module.select_convs
      by (rule merged_keys_with_segmentation)
    show "list_all (\<lambda>(k, v). callable v) (metric_fns m)" by (rule c)
    show "segmentation_keys \<inter> set (dict_keys (metric_fns m)) = {}"
      by (rule A [THEN conjunct1])
    show "segmentation_keys \<subseteq> set (dict_keys (metric_fns full))"
      by (rule A [THEN conjunct2, THEN conjunct1])
    show "set (dict_keys (metric_fns m)) = set (dict_keys (metric_fns full)) - segmentation_keys"
      by (rule A [THEN conjunct2, THEN conjunct2])
  qed
qed

text \<open>The claim with neither name importable.\<close>

theorem registry_without_segmentation_witness:
  "\<exists>m. import_metrics \<lparr>has_iou = False, has_focal_loss_with_logits = False\<rparr> = Inr m
     \<and> dict_keys (metric_fns m) =
         [''binary_cross_entropy'', ''cross_entropy'', ''binary_accuracy'', ''accuracy'',
          ''accuracy@3'', ''accuracy@5'', ''accuracy@10'', ''eval_loss'', ''mse'', ''mae'',
          ''forecast_rmse'', ''f1_binary'', ''f1_macro'', ''f1_micro'', ''roc_auc_macro'',
          ''roc_auc_micro'', ''soft_cross_entropy'', ''student_t'', ''gaussian_ll'',
          ''recall_binary'', ''precision_binary'', ''specificity_binary'', ''recall_multilabel'',
          ''precision_multilabel'', ''specificity_multilabel'',
          ''loss'', ''bpb'', ''ppl'']
     \<and> list_all (\<lambda>(k, v). callable v) (metric_fns m)
     \<and> segmentation_keys \<inter> set (dict_keys (metric_fns m)) = {}"
proof -
  have "\<not> (has_iou \<lparr>has_iou = False, has_focal_loss_with_logits = False\<rparr>
            \<and> has_focal_loss_with_logits \<lparr>has_iou = False, has_focal_loss_with_logits = False\<rparr>)"
    by simp
  from registry_without_segmentation [OF this] obtain m where
    "import_metrics \<lparr>has_iou = False, has_focal_loss_with_logits = False\<rparr> = Inr m"
    "dict_keys (metric_fns m) =
         [''binary_cross_entropy'', ''cross_entropy'', ''binary_accuracy'', ''accuracy'',
          ''accuracy@3'', ''accuracy@5'', ''accuracy@10'', ''eval_loss'', ''mse'', ''mae'',
          ''forecast_rmse'', ''f1_binary'', ''f1_macro'', ''f1_micro'', ''roc_auc_macro'',
          ''roc_auc_micro'', ''soft_cross_entropy'', ''student_t'', ''gaussian_ll'',
          ''recall_binary'', ''precision_binary'', ''specificity_binary'', ''recall_multilabel'',
          ''precision_multilabel'', ''specificity_multilabel'',
          ''loss'', ''bpb'', ''ppl'']"
    "list_all (\<lambda>(k, v). callable v) (metric_fns m)"
    "segmentation_keys \<inter> set (dict_keys (metric_fns m)) = {}"
    by (elim exE conjE)
  then show ?thesis by (intro exI conjI)
qed

section \<open>Shape policy of the regression losses\<close>

lemma ebind_eq_Inl: "ebind m f = Inl e \<longleftrightarrow> m = Inl e \<or> (\<exists>x. m = Inr x \<and> f x = Inl e)"
  by (cases m) (auto simp: ebind_def)

lemma tbin_no_assert: "tbin f a b \<noteq> Inl AssertionError"
  by (simp add: tbin_def split: option.split)

lemma mse_loss_no_assert: "mse_loss a b \<noteq> Inl AssertionError"
  by (simp add: mse_loss_def ebind_eq_Inl tbin_no_assert)

lemma l1_loss_no_assert: "l1_loss a b \<noteq> Inl AssertionError"
  by (simp add: l1_loss_def ebind_eq_Inl tbin_no_assert)

lemma mask_assign_no_assert: "mask_assign m i l \<noteq> Inl AssertionError"
  by (simp add: mask_assign_def Let_def split: list.split)

lemma mask_loop_no_assert: "mask_loop m i ls \<noteq> Inl AssertionError"
  by (induction ls arbitrary: m i) (simp_all add: ebind_eq_Inl mask_assign_no_assert)

lemma masked_select_no_assert: "masked_select x m \<noteq> Inl AssertionError"
  by (simp add: masked_select_def ebind_eq_Inl tbin_no_assert)

lemma regression_tail_no_assert:
  assumes "\<And>a b. base a b \<noteq> Inl AssertionError"
  shows "regression_tail base outs y lb \<noteq> Inl AssertionError"
  by (cases lb)
     (simp_all add: regression_tail_def ebind_eq_Inl assms mask_loop_no_assert masked_select_no_assert)

lemma shape_policy_cases:
  "shape_policy outs y =
     (if ndim y < ndim outs
      then (if last (shape outs) = 1 then Inr (squeeze_last outs) else Inl AssertionError)
      else Inr outs)"
  by (simp add: shape_policy_def)

lemma regression_shape_policy:
  assumes "\<And>a b. base a b \<noteq> Inl AssertionError"
  shows "(ndim y + 1 = ndim outs \<longrightarrow>
            (ebind (shape_policy outs y) (\<lambda>outs. regression_tail base outs y lb) = Inl AssertionError
               \<longleftrightarrow> last (shape outs) \<noteq> 1)
          \<and> (last (shape outs) = 1 \<longrightarrow>
                ebind (shape_policy outs y) (\<lambda>outs. regression_tail base outs y lb)
                  = regression_tail base (squeeze_last outs) y lb
                \<and> shape (squeeze_last outs) = butlast (shape outs)))
       \<and> (ndim y = ndim outs \<longrightarrow>
            ebind (shape_policy outs y) (\<lambda>outs. regression_tail base outs y lb)
              = regression_tail base outs y lb
            \<and> ebind (shape_policy outs y) (\<lambda>outs. regression_tail base outs y lb) \<noteq> Inl AssertionError)"
proof -
  note na = regression_tail_no_assert [of base, OF assms]
  have sq: "ndim y + 1 = ndim outs \<Longrightarrow> last (shape outs) = 1 \<Longrightarrow>
            shape (squeeze_last outs) = butlast (shape outs)"
    by (auto simp: squeeze_last_def ndim_def)
  show ?thesis
    by (auto simp: shape_policy_def na sq)
qed

text \<open>
  Claim C9. In \<^verbatim>\<open>mse\<close> and \<^verbatim>\<open>mae\<close>, when the target has one dimension fewer than
  the output, the call fails with the assertion error if and only if the last dimension of
  the output is not 1; when it is 1, the output loses that dimension and the rest of the
  function runs on the squeezed output. When target and output have equally many
  dimensions the rest runs on the output as it is and the assertion error never occurs.
\<close>

theorem shape_assertion:
  "(ndim y + 1 = ndim outs \<longrightarrow>
      (mse outs y lb = Inl AssertionError \<longleftrightarrow> last (shape outs) \<noteq> 1)
      \<and> (mae outs y lb = Inl AssertionError \<longleftrightarrow> last (shape outs) \<noteq> 1)
      \<and> (last (shape outs) = 1 \<longrightarrow>
            shape (squeeze_last outs) = butlast (shape outs)
          \<and> mse outs y lb = regression_tail mse_loss (squeeze_last outs) y lb
          \<and> mae outs y lb = regression_tail l1_loss (squeeze_last outs) y lb))
   \<and> (ndim y = ndim outs \<longrightarrow>
        mse outs y lb = regression_tail mse_loss outs y lb
      \<and> mae outs y lb = regression_tail l1_loss outs y lb
      \<and> mse outs y lb \<noteq> Inl AssertionError \<and> mae outs y lb \<noteq> Inl AssertionError)"
  using regression_shape_policy [of mse_loss y outs lb, OF mse_loss_no_assert]
    regression_shape_policy [of l1_loss y outs lb, OF l1_loss_no_assert]
  unfolding mse_def mae_def by blast

theorem shape_assertion_witness:
  "mse (mk [2, 2] [1, 2, 3, 4]) (mk [2] [1, 4]) None = Inl AssertionError
   \<and> mae (mk [2, 2] [1, 2, 3, 4]) (mk [2] [1, 4]) None = Inl AssertionError
   \<and> mse (mk [2, 1] [1, 2]) (mk [2] [1, 4]) None = mse_loss (mk [2] [1, 2]) (mk [2] [1, 4])
   \<and> mae (mk [2, 1] [1, 2]) (mk [2] [1, 4]) None = l1_loss (mk [2] [1, 2]) (mk [2] [1, 4])
   \<and> mse (mk [2] [1, 2]) (mk [2] [1, 4]) None = mse_loss (mk [2] [1, 2]) (mk [2] [1, 4])"
  using shape_assertion [of "mk [2] [1, 4]" "mk [2, 2] [1, 2, 3, 4]" None]
    shape_assertion [of "mk [2] [1, 4]" "mk [2, 1] [1, 2]" None]
    shape_assertion [of "mk [2] [1, 4]" "mk [2] [1, 2]" None]
  by (simp add: ndim_def squeeze_last_def regression_tail_def)

section \<open>Length-masked regression losses\<close>

lemma tbin_mk_same:
  "length xs = prod_list s \<Longrightarrow> length ys = prod_list s \<Longrightarrow>
   tbin f (mk s xs) (mk s ys) = Inr (mk s (map2 f xs ys))"
  using tbin_same [of "mk s xs" "mk s ys" f] by (simp add: wf_mk)

lemma mse_loss_same:
  "length xs = prod_list s \<Longrightarrow> length ys = prod_list s \<Longrightarrow>
   mse_loss (mk s xs) (mk s ys) = Inr (mean (map2 (\<lambda>x y. (x - y)\<^sup>2) xs ys))"
  by (simp add: mse_loss_def tbin_mk_same)

lemma l1_loss_same:
  "length xs = prod_list s \<Longrightarrow> length ys = prod_list s \<Longrightarrow>
   l1_loss (mk s xs) (mk s ys) = Inr (mean (map2 (\<lambda>x y. \<bar>x - y\<bar>) xs ys))"
  by (simp add: l1_loss_def tbin_mk_same)

lemma length_concat_rows: "list_all (\<lambda>r. length r = c) xss \<Longrightarrow> length (concat xss) = length xss * c"
  by (induction xss) auto

lemma length_concat_blocks:
  "shaped3 t c xsss \<Longrightarrow> length (concat (map concat xsss)) = length xsss * (t * c)"
  by (induction xsss) (auto simp: shaped3_def length_concat_rows)

lemma slice_stop_le: "slice_stop l t \<le> t"
  by (auto simp: slice_stop_def)

lemma length_mask_block: "length (mask_block t c l) = t * c"
proof -
  have "slice_stop l t * c + (t - slice_stop l t) * c = t * c"
    using slice_stop_le [of l t] by (simp flip: add_mult_distrib)
  then show ?thesis by (simp add: mask_block_def)
qed

lemma mask_assign_block:
  assumes "length pre = i * (t * c)" "i < b"
  shows "mask_assign (mk [b, t, c] (pre @ replicate (t * c) False @ post)) i l
         = Inr (mk [b, t, c] (pre @ mask_block t c l @ post))"
proof -
  let ?k = "slice_stop l t * c"
  have le: "?k \<le> t * c" using slice_stop_le [of l t] by simp
  have d: "t * c - ?k = (t - slice_stop l t) * c" by (simp add: diff_mult_distrib)
  have "drop (i * (t * c) + ?k) (pre @ replicate (t * c) False @ post)
        = replicate ((t - slice_stop l t) * c) False @ post"
    using assms(1) le by (simp add: d)
  moreover have "take (i * (t * c)) (pre @ replicate (t * c) False @ post) = pre"
    using assms(1) by simp
  ultimately show ?thesis
    using assms(2) by (simp add: mask_assign_def Let_def mask_block_def)
qed

lemma mask_loop_blocks:
  "length pre = i * (t * c) \<Longrightarrow> i + length ls \<le> b \<Longrightarrow>
   mask_loop (mk [b, t, c] (pre @ concat (replicate (length ls) (replicate (t * c) False)) @ post)) i ls
   = Inr (mk [b, t, c] (pre @ concat (map (mask_block t c) ls) @ post))"
proof (induction ls arbitrary: pre i)
  case Nil
  then show ?case by simp
next
  case (Cons l ls)
  let ?rest = "concat (replicate (length ls) (replicate (t * c) False)) @ post"
  have i: "i < b" using Cons.prems(2) by simp
  have step: "mask_assign (mk [b, t, c] (pre @ replicate (t * c) False @ ?rest)) i l
              = Inr (mk [b, t, c] (pre @ mask_block t c l @ ?rest))"
    by (rule mask_assign_block [OF Cons.prems(1) i])
  have len: "length (pre @ mask_block t c l) = Suc i * (t * c)"
    using Cons.prems(1) by (simp add: length_mask_block)
  have le: "Suc i + length ls \<le> b" using Cons.prems(2) by simp
  from Cons.IH [OF len le] step show ?case by simp
qed

lemma concat_replicate_const:
  "concat (replicate n (replicate k x)) = replicate (n * k) x"
  by (induction n) (simp_all add: replicate_add)

lemma zeros_like_blocks:
  assumes "shaped3 t c xsss"
  shows "zeros_like (of_blocks t c xsss)
         = mk [length xsss, t, c] (concat (replicate (length xsss) (replicate (t * c) False)))"
  by (simp add: zeros_like_def of_blocks_def tmap_def map_replicate_const
      length_concat_blocks [OF assms] concat_replicate_const)

lemma mask_loop_of_blocks:
  assumes "shaped3 t c xsss" "length lens = length xsss"
  shows "mask_loop (zeros_like (of_blocks t c xsss)) 0 lens
         = Inr (mk [length xsss, t, c] (concat (map (mask_block t c) lens)))"
  using mask_loop_blocks [of "[]" 0 t c lens "length xsss" "[]"] assms
  by (simp add: zeros_like_blocks)

lemma masked_select_same:
  "length d = prod_list s \<Longrightarrow> length m = prod_list s \<Longrightarrow>
   masked_select (mk s d) (mk s m) = Inr (vec (map fst (filter snd (zip d m))))"
  by (simp add: masked_select_def tbin_mk_same zip_map_fst_snd)

lemma select_true: "length a = n \<Longrightarrow> map fst (filter snd (zip a (replicate n True))) = a"
  by (induction a arbitrary: n) auto

lemma select_false: "filter snd (zip b (replicate n False)) = []"
proof (induction b arbitrary: n)
  case Nil
  then show ?case by simp
next
  case (Cons x b)
  then show ?case by (cases n) auto
qed

lemma select_block:
  assumes "length xss = t" "list_all (\<lambda>r. length r = c) xss" "k \<le> t"
  shows "map fst (filter snd (zip (concat xss)
           (replicate (k * c) True @ replicate ((t - k) * c) False))) = concat (take k xss)"
proof -
  have "list_all (\<lambda>r. length r = c) (take k xss)"
    using assms(2) by (auto simp: list_all_iff dest: in_set_takeD)
  then have len: "length (concat (take k xss)) = k * c"
    using assms(1,3) by (simp add: length_concat_rows)
  have "concat xss = concat (take k xss) @ concat (drop k xss)"
    by (simp flip: concat_append)
  then have "zip (concat xss) (replicate (k * c) True @ replicate ((t - k) * c) False)
        = zip (concat (take k xss)) (replicate (k * c) True)
          @ zip (concat (drop k xss)) (replicate ((t - k) * c) False)"
    using len by simp
  then show ?thesis by (simp add: select_true [OF len] select_false)
qed

lemma select_blocks:
  "length xsss = length lens \<Longrightarrow> shaped3 t c xsss \<Longrightarrow>
   map fst (filter snd (zip (concat (map concat xsss)) (concat (map (mask_block t c) lens))))
   = concat (map2 (\<lambda>xss l. concat (take (slice_stop l t) xss)) xsss lens)"
proof (induction xsss lens rule: list_induct2)
  case Nil
  then show ?case by simp
next
  case (Cons xss xsss l lens)
  from Cons.prems have xss: "length xss = t" "list_all (\<lambda>r. length r = c) xss"
    and rest: "shaped3 t c xsss"
    by (simp_all add: shaped3_def)
  have len: "length (concat xss) = length (mask_block t c l)"
    using xss by (simp add: length_concat_rows length_mask_block)
  have blk: "map fst (filter snd (zip (concat xss) (mask_block t c l)))
             = concat (take (slice_stop l t) xss)"
    unfolding mask_block_def by (rule select_block [OF xss slice_stop_le])
  show ?case using Cons.IH [OF rest] blk len by simp
qed

lemma valid_steps_slice:
  "list_all (\<lambda>l. 0 \<le> l \<and> l \<le> int t) lens \<Longrightarrow>
   concat (map2 (\<lambda>xss l. concat (take (slice_stop l t) xss)) xsss lens) = valid_steps xsss lens"
proof (induction lens arbitrary: xsss)
  case Nil
  then show ?case by (simp add: valid_steps_def)
next
  case (Cons l lens)
  then have "slice_stop l t = nat l" by (auto simp: slice_stop_def)
  with Cons show ?case by (cases xsss) (simp_all add: valid_steps_def)
qed

lemma length_valid_steps:
  "length xsss = length lens \<Longrightarrow> shaped3 t c xsss \<Longrightarrow> list_all (\<lambda>l. 0 \<le> l \<and> l \<le> int t) lens \<Longrightarrow>
   length (valid_steps xsss lens) = sum_list (map (\<lambda>l. nat l * c) lens)"
proof (induction xsss lens rule: list_induct2)
  case Nil
  then show ?case by (simp add: valid_steps_def)
next
  case (Cons xss xsss l lens)
  from Cons.prems have xss: "length xss = t" "list_all (\<lambda>r. length r = c) xss"
    and rest: "shaped3 t c xsss"
    and lens: "list_all (\<lambda>l. 0 \<le> l \<and> l \<le> int t) lens"
    by (simp_all add: shaped3_def)
  from Cons.prems have l: "nat l \<le> t" by auto
  have "list_all (\<lambda>r. length r = c) (take (nat l) xss)"
    using xss(2) by (auto simp: list_all_iff dest: in_set_takeD)
  then have "length (concat (take (nat l) xss)) = nat l * c"
    using xss(1) l by (simp add: length_concat_rows)
  with Cons.IH [OF rest lens] show ?case by (simp add: valid_steps_def)
qed

lemma masked_regression:
  assumes "shaped3 t c outs" "shaped3 t c y" "length y = length outs" "length lens = length outs"
      and "list_all (\<lambda>l. 0 \<le> l \<and> l \<le> int t) lens"
  shows "regression_tail base (of_blocks t c outs) (of_blocks t c y) (Some lens)
         = base (vec (valid_steps outs lens)) (vec (valid_steps y lens))"
proof -
  let ?m = "concat (map (mask_block t c) lens)"
  let ?s = "[length outs, t, c]"
  have lm: "length ?m = prod_list ?s"
    using assms(4) by (simp add: length_concat length_mask_block comp_def sum_list_triv)
  have lo: "length (concat (map concat outs)) = prod_list ?s"
    by (simp add: length_concat_blocks [OF assms(1)])
  have ly: "length (concat (map concat y)) = prod_list ?s"
    by (simp add: length_concat_blocks [OF assms(2)] assms(3))
  have sel: "map fst (filter snd (zip (concat (map concat xsss)) ?m)) = valid_steps xsss lens"
    if "shaped3 t c xsss" "length xsss = length lens" for xsss :: "real list list list"
  proof -
    note select_blocks [OF that(2) that(1)]
    also have "concat (map2 (\<lambda>xss l. concat (take (slice_stop l t) xss)) xsss lens)
               = valid_steps xsss lens"
      by (rule valid_steps_slice [OF assms(5)])
    finally show ?thesis .
  qed
  have so: "masked_select (of_blocks t c outs) (mk ?s ?m) = Inr (vec (valid_steps outs lens))"
    unfolding of_blocks_def masked_select_same [OF lo lm]
    using sel [OF assms(1)] assms(4) by simp
  have sy: "masked_select (of_blocks t c y) (mk ?s ?m) = Inr (vec (valid_steps y lens))"
    unfolding of_blocks_def assms(3) masked_select_same [OF ly lm]
    using sel [OF assms(2)] assms(3,4) by simp
  show ?thesis
    unfolding regression_tail_def option.case mask_loop_of_blocks [OF assms(1,4)] ebind_Inr so sy
    by (rule refl)
qed

text \<open>
  Claim C3. For an output of shape (batch, time, channel), a target of the same shape and
  one length per sequence with \<open>0 \<le> length[i] \<le> time\<close>, the length-masked
  \<^verbatim>\<open>mse\<close> (\<^verbatim>\<open>mae\<close>) is the unmasked mean-squared (mean-absolute) error of the
  elements of the first \<open>length[i]\<close> time-steps of each sequence \<open>i\<close>; the padded
  positions play no part.
\<close>

theorem length_masked_losses:
  assumes "shaped3 t c outs" "shaped3 t c y" "length y = length outs" "length lens = length outs"
      and "list_all (\<lambda>l. 0 \<le> l \<and> l \<le> int t) lens"
  shows "mse (of_blocks t c outs) (of_blocks t c y) (Some lens)
           = mse_loss (vec (valid_steps outs lens)) (vec (valid_steps y lens))
       \<and> mae (of_blocks t c outs) (of_blocks t c y) (Some lens)
           = l1_loss (vec (valid_steps outs lens)) (vec (valid_steps y lens))
       \<and> mse (of_blocks t c outs) (of_blocks t c y) (Some lens)
           = Inr (mean (map2 (\<lambda>a b. (a - b)\<^sup>2) (valid_steps outs lens) (valid_steps y lens)))
       \<and> mae (of_blocks t c outs) (of_blocks t c y) (Some lens)
           = Inr (mean (map2 (\<lambda>a b. \<bar>a - b\<bar>) (valid_steps outs lens) (valid_steps y lens)))"
proof -
  have sp: "shape_policy (of_blocks t c outs) (of_blocks t c y) = Inr (of_blocks t c outs)"
    by (simp add: shape_policy_def ndim_def of_blocks_def)
  have len: "length (valid_steps y lens) = length (valid_steps outs lens)"
    using length_valid_steps [of outs lens t c] length_valid_steps [of y lens t c] assms by simp
  have a: "mse (of_blocks t c outs) (of_blocks t c y) (Some lens)
           = mse_loss (vec (valid_steps outs lens)) (vec (valid_steps y lens))"
    unfolding mse_def sp ebind_Inr by (rule masked_regression [OF assms])
  have b: "mae (of_blocks t c outs) (of_blocks t c y) (Some lens)
           = l1_loss (vec (valid_steps outs lens)) (vec (valid_steps y lens))"
    unfolding mae_def sp ebind_Inr by (rule masked_regression [OF assms])
  have c: "mse_loss (vec (valid_steps outs lens)) (vec (valid_steps y lens))
           = Inr (mean (map2 (\<lambda>a b. (a - b)\<^sup>2) (valid_steps outs lens) (valid_steps y lens)))"
    unfolding vec_def len by (rule mse_loss_same) (simp_all add: len)
  have d: "l1_loss (vec (valid_steps outs lens)) (vec (valid_steps y lens))
           = Inr (mean (map2 (\<lambda>a b. \<bar>a - b\<bar>) (valid_steps outs lens) (valid_steps y lens)))"
    unfolding vec_def len by (rule l1_loss_same) (simp_all add: len)
  show ?thesis using a b c d by simp
qed

theorem length_masked_losses_witness:
  "mse (of_blocks 5 1 [[[1], [2], [3], [9], [9]], [[1], [1], [1], [1], [1]]])
       (of_blocks 5 1 [[[0], [0], [0], [0], [0]], [[0], [0], [0], [0], [0]]]) (Some [3, 5])
     = Inr (Fin (19 / 8))
   \<and> mae (of_blocks 5 1 [[[1], [2], [3], [9], [9]], [[1], [1], [1], [1], [1]]])
       (of_blocks 5 1 [[[0], [0], [0], [0], [0]], [[0], [0], [0], [0], [0]]]) (Some [3, 5])
     = Inr (Fin (11 / 8))"
  using length_masked_losses [of 5 1 "[[[1], [2], [3], [9], [9]], [[1], [1], [1], [1], [1]]]"
      "[[[0], [0], [0], [0], [0]], [[0], [0], [0], [0], [0]]]" "[3, 5]",
      THEN conjunct2, THEN conjunct2]
  by (simp add: shaped3_def valid_steps_def mean_def)

section \<open>Forecast RMSE is the mean of the per-series RMSE\<close>

lemma concat_nth_rows:
  "list_all (\<lambda>r. length r = c) xss \<Longrightarrow> i < length xss \<Longrightarrow> k < c \<Longrightarrow>
   concat xss ! (i * c + k) = xss ! i ! k"
proof (induction xss arbitrary: i)
  case Nil
  then show ?case by simp
next
  case (Cons xs xss)
  show ?case
  proof (cases i)
    case 0
    with Cons.prems show ?thesis by (simp add: nth_append)
  next
    case (Suc j)
    with Cons.prems have "concat xss ! (j * c + k) = xss ! j ! k"
      by (intro Cons.IH) simp_all
    with Cons.prems Suc show ?thesis by (simp add: nth_append)
  qed
qed

lemma row_of_concat:
  assumes "list_all (\<lambda>r. length r = c) xss" "i < length xss"
  shows "map (\<lambda>k. concat xss ! (i * c + k)) [0..<c] = xss ! i"
proof (rule nth_equalityI)
  show "length (map (\<lambda>k. concat xss ! (i * c + k)) [0..<c]) = length (xss ! i)"
    using assms by (simp add: list_all_length)
next
  fix k assume "k < length (map (\<lambda>k. concat xss ! (i * c + k)) [0..<c])"
  then have "k < c" by simp
  then show "map (\<lambda>k. concat xss ! (i * c + k)) [0..<c] ! k = xss ! i ! k"
    using concat_nth_rows [OF assms] by simp
qed

lemma mean_dim1_rows:
  assumes "list_all (\<lambda>r. length r = c) xss"
  shows "mean_dim1 (of_rows c xss) = Inr (vec (map mean xss))"
proof -
  have "map (\<lambda>i. mean (map (\<lambda>k. concat xss ! (i * c + k)) [0..<c])) [0..<length xss]
        = map mean xss"
    by (rule nth_equalityI) (simp_all add: row_of_concat [OF assms])
  then show ?thesis
    by (simp add: mean_dim1_def of_rows_def vec_def)
qed

lemma map2_concat:
  "list_all2 (\<lambda>a b. length a = length b) xss yss \<Longrightarrow>
   map2 f (concat xss) (concat yss) = concat (map2 (map2 f) xss yss)"
  by (induction rule: list_all2_induct) simp_all

lemma squared_error_rows:
  assumes "list_all (\<lambda>r. length r = t) outs" "list_all (\<lambda>r. length r = t) y"
      and "length y = length outs"
  shows "tbin (\<lambda>a b. (a - b)\<^sup>2) (of_rows t outs) (of_rows t y)
         = Inr (of_rows t (map2 (map2 (\<lambda>a b. (a - b)\<^sup>2)) outs y))"
    and "list_all (\<lambda>r. length r = t) (map2 (map2 (\<lambda>a b. (a - b)\<^sup>2)) outs y)"
proof -
  have l2: "list_all2 (\<lambda>a b. length a = length b) outs y"
    using assms by (auto simp: list_all2_conv_all_nth list_all_length)
  have lo: "length (concat outs) = prod_list [length outs, t]"
    using assms(1) by (simp add: length_concat_rows)
  have ly: "length (concat y) = prod_list [length outs, t]"
    using assms(2,3) by (simp add: length_concat_rows)
  show "tbin (\<lambda>a b. (a - b)\<^sup>2) (of_rows t outs) (of_rows t y)
         = Inr (of_rows t (map2 (map2 (\<lambda>a b. (a - b)\<^sup>2)) outs y))"
    unfolding of_rows_def assms(3) tbin_mk_same [OF lo ly] map2_concat [OF l2]
    by (simp add: assms(3))
  show "list_all (\<lambda>r. length r = t) (map2 (map2 (\<lambda>a b. (a - b)\<^sup>2)) outs y)"
    using assms by (auto simp: list_all_length)
qed

lemma forecast_rmse_rows:
  assumes "list_all (\<lambda>r. length r = t) outs" "list_all (\<lambda>r. length r = t) y"
      and "length y = length outs"
  shows "forecast_rmse (of_rows t outs) (of_rows t y) lb = Inr (per_series_rmse outs y)"
proof -
  have e: "map fsqrt (map mean (map2 (map2 (\<lambda>a b. (a - b)\<^sup>2)) outs y))
        = map2 (\<lambda>o_i y_i. fsqrt (mean (map2 (\<lambda>a b. (a - b)\<^sup>2) o_i y_i))) outs y"
    by (simp add: case_prod_beta)
  show ?thesis
    unfolding forecast_rmse_def squared_error_rows(1) [OF assms] ebind_Inr
      mean_dim1_rows [OF squared_error_rows(2) [OF assms]] per_series_rmse_def
    by (simp only: vec_def elems_mk e)
qed

lemma foldl_fadd_Fin: "foldl fadd (Fin a) (map Fin xs) = Fin (a + sum_list xs)"
  by (induction xs arbitrary: a) (simp_all add: add.assoc)

lemma fmean_Fin: "xs \<noteq> [] \<Longrightarrow> fmean (map Fin xs) = Fin (sum_list xs / real (length xs))"
  by (simp add: fmean_def fsum_def foldl_fadd_Fin)

lemma per_series_rmse_value:
  assumes "list_all (\<lambda>r. length r = t) outs" "list_all (\<lambda>r. length r = t) y"
      and "length y = length outs" "outs \<noteq> []" "0 < t"
  shows "per_series_rmse outs y
         = Fin (sum_list (map2 (\<lambda>o_i y_i. sqrt (sum_list (map2 (\<lambda>a b. (a - b)\<^sup>2) o_i y_i) / real t)) outs y)
                / real (length outs))"
proof -
  have eq: "map2 (\<lambda>o_i y_i. fsqrt (mean (map2 (\<lambda>a b. (a - b)\<^sup>2) o_i y_i))) outs y
        = map Fin (map2 (\<lambda>o_i y_i. sqrt (sum_list (map2 (\<lambda>a b. (a - b)\<^sup>2) o_i y_i) / real t)) outs y)"
  proof (rule nth_equalityI)
    show "length (map2 (\<lambda>o_i y_i. fsqrt (mean (map2 (\<lambda>a b. (a - b)\<^sup>2) o_i y_i))) outs y)
          = length (map Fin (map2 (\<lambda>o_i y_i. sqrt (sum_list (map2 (\<lambda>a b. (a - b)\<^sup>2) o_i y_i) / real t)) outs y))"
      by simp
  next
    fix i assume "i < length (map2 (\<lambda>o_i y_i. fsqrt (mean (map2 (\<lambda>a b. (a - b)\<^sup>2) o_i y_i))) outs y)"
    then have i: "i < length outs" "i < length y" by simp_all
    then have len: "length (outs ! i) = t" "length (y ! i) = t"
      using assms(1,2) by (simp_all add: list_all_length)
    have nn: "0 \<le> sum_list (map2 (\<lambda>a b. (a - b)\<^sup>2) (outs ! i) (y ! i))"
      by (rule sum_list_nonneg) auto
    have ne: "map2 (\<lambda>a b. (a - b)\<^sup>2) (outs ! i) (y ! i) \<noteq> []"
      using len assms(5) by auto
    show "map2 (\<lambda>o_i y_i. fsqrt (mean (map2 (\<lambda>a b. (a - b)\<^sup>2) o_i y_i))) outs y ! i
          = map Fin (map2 (\<lambda>o_i y_i. sqrt (sum_list (map2 (\<lambda>a b. (a - b)\<^sup>2) o_i y_i) / real t)) outs y) ! i"
      using i ne nn len by (simp add: mean_def not_less)
  qed
  have ne: "map2 (\<lambda>o_i y_i. sqrt (sum_list (map2 (\<lambda>a b. (a - b)\<^sup>2) o_i y_i) / real t)) outs y \<noteq> []"
    using assms(3,4) by (cases outs; cases y) simp_all
  show ?thesis
    unfolding per_series_rmse_def eq fmean_Fin [OF ne] by (simp add: assms(3))
qed

lemma toy_per_series:
  "per_series_rmse [[0, 0, 0], [2, 2, 2]] [[0, 0, 0], [0, 0, 0]] = Fin 1"
  by (simp add: per_series_rmse_def mean_def fmean_def fsum_def)

lemma toy_global:
  "global_rmse [[0, 0, 0], [2, 2, 2]] [[0, 0, 0], [0, 0, 0]] = Fin (sqrt 2)"
  by (simp add: global_rmse_def mean_def)

text \<open>
  Claim C5. For output and target of shape (series, time), \<^verbatim>\<open>forecast_rmse\<close> returns
  the mean over series of the square root of the mean over time of the squared error
  (for at least one series and one time-step: the stated real number), and there is an
  input on which this differs from the square root of the mean of all squared errors.
\<close>

theorem forecast_rmse_per_series:
  assumes "list_all (\<lambda>r. length r = t) outs" "list_all (\<lambda>r. length r = t) y"
      and "length y = length outs"
  shows "forecast_rmse (of_rows t outs) (of_rows t y) lb = Inr (per_series_rmse outs y)
       \<and> (outs \<noteq> [] \<and> 0 < t \<longrightarrow>
            per_series_rmse outs y
            = Fin (sum_list (map2 (\<lambda>o_i y_i. sqrt (sum_list (map2 (\<lambda>a b. (a - b)\<^sup>2) o_i y_i) / real t)) outs y)
                   / real (length outs)))
       \<and> (\<exists>outs' y' t'. list_all (\<lambda>r. length r = t') outs' \<and> list_all (\<lambda>r. length r = t') y'
              \<and> length y' = length outs'
              \<and> forecast_rmse (of_rows t' outs') (of_rows t' y') lb \<noteq> Inr (global_rmse outs' y'))"
proof (intro conjI impI)
  show "forecast_rmse (of_rows t outs) (of_rows t y) lb = Inr (per_series_rmse outs y)"
    by (rule forecast_rmse_rows [OF assms])
next
  assume "outs \<noteq> [] \<and> 0 < t"
  then show "per_series_rmse outs y
      = Fin (sum_list (map2 (\<lambda>o_i y_i. sqrt (sum_list (map2 (\<lambda>a b. (a - b)\<^sup>2) o_i y_i) / real t)) outs y)
             / real (length outs))"
    using per_series_rmse_value [OF assms] by simp
next
  let ?o = "[[0, 0, 0], [2, 2, 2 :: real]]" and ?y = "[[0, 0, 0], [0, 0, 0 :: real]]"
  have "forecast_rmse (of_rows 3 ?o) (of_rows 3 ?y) lb = Inr (Fin 1)"
    using forecast_rmse_rows [of 3 ?o ?y lb] by (simp add: toy_per_series)
  moreover have "sqrt 2 \<noteq> 1" by simp
  ultimately have "forecast_rmse (of_rows 3 ?o) (of_rows 3 ?y) lb \<noteq> Inr (global_rmse ?o ?y)"
    by (simp add: toy_global)
  moreover have "list_all (\<lambda>r. length r = 3) ?o \<and> list_all (\<lambda>r. length r = 3) ?y \<and> length ?y = length ?o"
    by simp
  ultimately show "\<exists>outs' y' t'. list_all (\<lambda>r. length r = t') outs' \<and> list_all (\<lambda>r. length r = t') y'
              \<and> length y' = length outs'
              \<and> forecast_rmse (of_rows t' outs') (of_rows t' y') lb \<noteq> Inr (global_rmse outs' y')"
    by blast
qed

theorem forecast_rmse_per_series_witness:
  "forecast_rmse (of_rows 3 [[0, 0, 0], [2, 2, 2]]) (of_rows 3 [[0, 0, 0], [0, 0, 0]]) None = Inr (Fin 1)
   \<and> global_rmse [[0, 0, 0], [2, 2, 2]] [[0, 0, 0], [0, 0, 0]] = Fin (sqrt 2)
   \<and> sqrt 2 \<noteq> (1::real)"
  using forecast_rmse_per_series [of 3 "[[0, 0, 0], [2, 2, 2]]" "[[0, 0, 0], [0, 0, 0]]" None, THEN conjunct1]
  by (simp add: toy_per_series toy_global)

section \<open>Specificity over labels\<close>

lemma tbin_rows:
  assumes "list_all (\<lambda>r. length r = c) xss" "list_all (\<lambda>r. length r = c) yss"
      and "length yss = length xss"
  shows "tbin f (of_rows c xss) (of_rows c yss) = Inr (of_rows c (map2 (map2 f) xss yss))"
    and "list_all (\<lambda>r. length r = c) (map2 (map2 f) xss yss)"
proof -
  have l2: "list_all2 (\<lambda>a b. length a = length b) xss yss"
    using assms by (auto simp: list_all2_conv_all_nth list_all_length)
  have lo: "length (concat xss) = prod_list [length xss, c]"
    using assms(1) by (simp add: length_concat_rows)
  have ly: "length (concat yss) = prod_list [length xss, c]"
    using assms(2,3) by (simp add: length_concat_rows)
  show "tbin f (of_rows c xss) (of_rows c yss) = Inr (of_rows c (map2 (map2 f) xss yss))"
    unfolding of_rows_def assms(3) tbin_mk_same [OF lo ly] map2_concat [OF l2]
    by (simp add: assms(3))
  show "list_all (\<lambda>r. length r = c) (map2 (map2 f) xss yss)"
    using assms by (auto simp: list_all_length)
qed

lemma tmap_rows: "tmap f (of_rows c xss) = of_rows c (map (map f) xss)"
  by (simp add: tmap_def of_rows_def map_concat)

lemma squeeze_rows: "c \<noteq> 1 \<Longrightarrow> squeeze_last (of_rows c xss) = of_rows c xss"
  by (simp add: squeeze_last_def of_rows_def)

lemma sum_dim0_rows:
  assumes "list_all (\<lambda>r. length r = c) xss"
  shows "sum_dim0 (of_rows c xss) = vec (map (\<lambda>j. sum_list (map (\<lambda>r. r ! j) xss)) [0..<c])"
proof -
  have "map (\<lambda>i. concat xss ! (i * c + j)) [0..<length xss] = map (\<lambda>r. r ! j) xss" if "j < c" for j
    by (rule nth_equalityI) (simp_all add: concat_nth_rows [OF assms _ that])
  then have "map (\<lambda>j. sum_list (map (\<lambda>i. concat xss ! (i * c + j)) [0..<length xss])) [0..<c]
        = map (\<lambda>j. sum_list (map (\<lambda>r. r ! j) xss)) [0..<c]"
    by simp
  then show ?thesis
    by (simp add: sum_dim0_def of_rows_def vec_def)
qed

lemma column_of_map2:
  assumes "list_all (\<lambda>r. length r = c) xss" "list_all (\<lambda>r. length r = c) yss" "j < c"
  shows "map (\<lambda>r. r ! j) (map2 (map2 f) xss yss) = map (\<lambda>(x, t). f (x ! j) (t ! j)) (zip xss yss)"
proof -
  have "map2 f x t ! j = f (x ! j) (t ! j)" if "(x, t) \<in> set (zip xss yss)" for x t
  proof -
    from that have "x \<in> set xss" "t \<in> set yss" by (auto dest: set_zip_leftD set_zip_rightD)
    with assms show ?thesis by (simp add: list_all_iff)
  qed
  then show ?thesis by (auto simp: case_prod_beta)
qed

lemma sum_indicator: "sum_list (map (\<lambda>z. if P z then 1 else 0) zs) = real (length (filter P zs))"
  by (induction zs) auto

lemma column_sum_count:
  assumes "list_all (\<lambda>r. length r = c) xss" "list_all (\<lambda>r. length r = c) yss" "j < c"
      and "\<And>x t. (x, t) \<in> set (zip xss yss) \<Longrightarrow> f (g (x ! j)) (h (t ! j)) = (if Q (x, t) then 1 else 0)"
  shows "sum_list (map (\<lambda>r. r ! j) (map2 (map2 f) (map (map g) xss) (map (map h) yss)))
         = real (length (filter Q (zip xss yss)))"
proof -
  have rx: "list_all (\<lambda>r. length r = c) (map (map g) xss)"
    and ry: "list_all (\<lambda>r. length r = c) (map (map h) yss)"
    using assms(1,2) by (simp_all add: list_all_iff)
  have "map (\<lambda>r. r ! j) (map2 (map2 f) (map (map g) xss) (map (map h) yss))
        = map (\<lambda>(x, t). f (map g x ! j) (map h t ! j)) (zip xss yss)"
    unfolding column_of_map2 [OF rx ry assms(3)] by (simp add: zip_map_map case_prod_beta)
  also have "\<dots> = map (\<lambda>z. if Q z then 1 else 0) (zip xss yss)"
  proof (rule map_cong [OF refl])
    fix z assume z: "z \<in> set (zip xss yss)"
    obtain x t where xt: "z = (x, t)" by (cases z)
    with z have "x \<in> set xss" "t \<in> set yss" by (auto dest: set_zip_leftD set_zip_rightD)
    with assms(1,2,3) have "j < length x" "j < length t" by (simp_all add: list_all_iff)
    with assms(4) [of x t] z xt
    show "(case z of (x, t) \<Rightarrow> f (map g x ! j) (map h t ! j)) = (if Q z then 1 else 0)"
      by simp
  qed
  finally show ?thesis by (simp add: sum_indicator)
qed

lemma binary_entry:
  "binary_rows yss \<Longrightarrow> list_all (\<lambda>r. length r = c) yss \<Longrightarrow> j < c \<Longrightarrow> (x, t) \<in> set (zip xss yss) \<Longrightarrow>
   t ! j = 0 \<or> t ! j = 1"
proof -
  assume a: "binary_rows yss" "list_all (\<lambda>r. length r = c) yss" "j < c" "(x, t) \<in> set (zip xss yss)"
  then have t: "t \<in> set yss" by (auto dest: set_zip_rightD)
  with a have "t ! j \<in> set t" by (simp add: list_all_iff)
  with a(1) t show ?thesis by (auto simp: binary_rows_def list_all_iff)
qed

lemma specificity_counts:
  assumes "list_all (\<lambda>r. length r = c) logits" "list_all (\<lambda>r. length r = c) y"
      and "binary_rows y" "j < c"
  shows "sum_list (map (\<lambda>r. r ! j)
           (map2 (map2 (*)) (map (map (\<lambda>x. 1 - (if 0 \<le> x then 1 else 0))) logits)
                            (map (map (\<lambda>v. 1 - v)) y)))
         = real (true_negatives logits y j)"
    and "sum_list (map (\<lambda>r. r ! j)
           (map2 (map2 (*)) (map (map (\<lambda>x. if 0 \<le> x then 1 else 0)) logits)
                            (map (map (\<lambda>v. 1 - v)) y)))
         = real (false_positives logits y j)"
  unfolding true_negatives_def false_positives_def
  using binary_entry [OF assms(3,2,4)]
  by (intro column_sum_count [OF assms(1,2,4)]; fastforce)+

lemma threshold_rows:
  "c \<noteq> 1 \<Longrightarrow>
   threshold_logits (of_rows c logits) = of_rows c (map (map (\<lambda>x. if 0 \<le> x then 1 else 0)) logits)"
  by (simp add: threshold_logits_def squeeze_rows tmap_rows)

lemma tbin_vec:
  "length ys = length xs \<Longrightarrow> tbin f (vec xs) (vec ys) = Inr (vec (map2 f xs ys))"
  using tbin_mk_same [of xs "[length xs]" ys f] by (simp add: vec_def)

lemma fdiv_counts:
  "fdiv (real a) (real a + real b) = (if a + b = 0 then NaN else Fin (real a / (real a + real b)))"
  by (auto simp: fdiv_def)

lemma specificity_multilabel_rows:
  assumes "list_all (\<lambda>r. length r = c) logits" "list_all (\<lambda>r. length r = c) y"
      and "length y = length logits" "binary_rows y" "c \<noteq> 1"
  shows "specificity_multilabel (of_rows c logits) (of_rows c y)
         = Inr (fmean (map (\<lambda>j. Fin (label_specificity logits y j)) [0..<c]))"
proof -
  let ?P = "map (map (\<lambda>x. if 0 \<le> x then 1 else 0 :: real)) logits"
  let ?NP = "map (map (\<lambda>x. 1 - (if 0 \<le> x then 1 else 0 :: real))) logits"
  let ?NY = "map (map (\<lambda>v. 1 - v)) y"
  let ?tn = "map (\<lambda>j. real (true_negatives logits y j)) [0..<c]"
  let ?fp = "map (\<lambda>j. real (false_positives logits y j)) [0..<c]"
  have rP: "list_all (\<lambda>r. length r = c) ?P" and rNP: "list_all (\<lambda>r. length r = c) ?NP"
    and rNY: "list_all (\<lambda>r. length r = c) ?NY"
    using assms(1,2) by (simp_all add: list_all_iff)
  have lNP: "length ?NY = length ?NP" and lP: "length ?NY = length ?P"
    using assms(3) by simp_all
  have np: "tmap (\<lambda>p. 1 - p) (of_rows c ?P) = of_rows c ?NP"
    by (simp add: tmap_rows comp_def)
  have ny: "tmap (\<lambda>v. 1 - v) (of_rows c y) = of_rows c ?NY"
    by (simp add: tmap_rows)
  have tn': "map (\<lambda>j. sum_list (map (\<lambda>r. r ! j) (map2 (map2 (*)) ?NP ?NY))) [0..<c] = ?tn"
  proof (rule map_cong [OF refl])
    fix j assume "j \<in> set [0..<c]"
    then have "j < c" by simp
    from specificity_counts(1) [OF assms(1,2,4) this]
    show "sum_list (map (\<lambda>r. r ! j) (map2 (map2 (*)) ?NP ?NY)) = real (true_negatives logits y j)" .
  qed
  have fp': "map (\<lambda>j. sum_list (map (\<lambda>r. r ! j) (map2 (map2 (*)) ?P ?NY))) [0..<c] = ?fp"
  proof (rule map_cong [OF refl])
    fix j assume "j \<in> set [0..<c]"
    then have "j < c" by simp
    from specificity_counts(2) [OF assms(1,2,4) this]
    show "sum_list (map (\<lambda>r. r ! j) (map2 (map2 (*)) ?P ?NY)) = real (false_positives logits y j)" .
  qed
  have tn: "sum_dim0 (of_rows c (map2 (map2 (*)) ?NP ?NY)) = vec ?tn"
    unfolding sum_dim0_rows [OF tbin_rows(2) [OF rNP rNY lNP]] tn' by (rule refl)
  have fp: "sum_dim0 (of_rows c (map2 (map2 (*)) ?P ?NY)) = vec ?fp"
    unfolding sum_dim0_rows [OF tbin_rows(2) [OF rP rNY lP]] fp' by (rule refl)
  have den: "tbin (+) (vec ?tn) (vec ?fp) = Inr (vec (map2 (+) ?tn ?fp))"
    by (rule tbin_vec) simp
  have quo: "tbin fdiv (vec ?tn) (vec (map2 (+) ?tn ?fp)) = Inr (vec (map2 fdiv ?tn (map2 (+) ?tn ?fp)))"
    by (rule tbin_vec) simp
  have ent: "map (\<lambda>v. if v = NaN then Fin 0 else v) (map2 fdiv ?tn (map2 (+) ?tn ?fp))
             = map (\<lambda>j. Fin (label_specificity logits y j)) [0..<c]"
    by (rule nth_equalityI) (simp_all add: fdiv_counts label_specificity_def)
  show ?thesis
    unfolding specificity_multilabel_def Let_def threshold_rows [OF assms(5)] np ny
      tbin_rows(1) [OF rNP rNY lNP] tbin_rows(1) [OF rP rNY lP] ebind_Inr tn fp den quo
    by (simp only: elems_tmap elems_mk vec_def ent)
qed

text \<open>
  Claim C6, as amended. For logits and a binary target of one shape (batch, labels) with
  at least two labels, \<^verbatim>\<open>specificity_multilabel\<close> returns the mean over the labels of
  the ratio TN / (TN + FP) of the label, taken as 0 for a label without negatives; the
  result is a finite number, never NaN.
\<close>

theorem specificity_multilabel_labels:
  assumes "list_all (\<lambda>r. length r = c) logits" "list_all (\<lambda>r. length r = c) y"
      and "length y = length logits" "binary_rows y" "2 \<le> c"
  shows "specificity_multilabel (of_rows c logits) (of_rows c y)
         = Inr (Fin (sum_list (map (label_specificity logits y) [0..<c]) / real c))"
proof -
  have c: "c \<noteq> 1" and ne: "map (label_specificity logits y) [0..<c] \<noteq> []"
    using assms(5) by auto
  have h: "map (\<lambda>j. Fin (label_specificity logits y j)) [0..<c]
        = map Fin (map (label_specificity logits y) [0..<c])"
    by simp
  show ?thesis
    unfolding specificity_multilabel_rows [OF assms(1-4) c] h fmean_Fin [OF ne] by simp
qed

text \<open>
  The case of the specification: 4 samples and 2 labels, the first label without
  negatives (ratio taken as 0), the second with ratio 1/3.
\<close>

theorem specificity_multilabel_labels_witness:
  "specificity_multilabel (of_rows 2 [[1, 1], [-1, 1], [1, -1], [-1, -1]])
                          (of_rows 2 [[1, 0], [1, 0], [1, 1], [1, 0]]) = Inr (Fin (1 / 6))"
  using specificity_multilabel_labels [of 2 "[[1, 1], [-1, 1], [1, -1], [-1, -1]]"
      "[[1, 0], [1, 0], [1, 1], [1, 0]]"]
  by (simp add: binary_rows_def label_specificity_def true_negatives_def false_positives_def
      upt_conv_Cons)

text \<open>
  Claim C6 as stated fails on a target without labels, where the result is NaN, and on a
  single label, where the squeezed predictions of shape (batch) broadcast against the
  target of shape (batch, 1): the result 1/2 is not the ratio 0 of the label.
\<close>

theorem specificity_multilabel_counterexample:
  "specificity_multilabel (mk [4, 0] []) (mk [4, 0] []) = Inr NaN
   \<and> specificity_multilabel (of_rows 1 [[1], [-1]]) (of_rows 1 [[0], [1]]) = Inr (Fin (1 / 2))
   \<and> label_specificity [[1], [-1]] [[0], [1]] 0 = 0"
  by (simp add: specificity_multilabel_def threshold_logits_def squeeze_last_def tmap_def
      tbin_mk_same sum_dim0_def fmean_def of_rows_def tbin_def bshape_def broadcast_to_def
      pad_shape_def upt_conv_Cons fsum_def fdiv_def
      label_specificity_def true_negatives_def false_positives_def)

section \<open>Recall and precision over labels\<close>

text \<open>
  Claim C1 at a concrete input with 1 true positive, 1 false negative and 2 false
  positives: \<^verbatim>\<open>recall_multilabel\<close> returns TP / (TP + FP + epsilon) and
  \<^verbatim>\<open>precision_multilabel\<close> returns TP / (TP + FN + epsilon), each the formula the
  claim gives for the other.
\<close>

theorem multilabel_recall_precision_swapped:
  "tp_total [[1, 1], [1, -1]] [[1, 0], [0, 1]] = 1
   \<and> fn_total [[1, 1], [1, -1]] [[1, 0], [0, 1]] = 1
   \<and> fp_total [[1, 1], [1, -1]] [[1, 0], [0, 1]] = 2
   \<and> recall_multilabel (of_rows 2 [[1, 1], [1, -1]]) (of_rows 2 [[1, 0], [0, 1]])
     = Inr (Fin (1 / (1 + 2 + 1 / 10 ^ 7)))
   \<and> precision_multilabel (of_rows 2 [[1, 1], [1, -1]]) (of_rows 2 [[1, 0], [0, 1]])
     = Inr (Fin (1 / (1 + 1 + 1 / 10 ^ 7)))"
  by (simp add: recall_multilabel_def precision_multilabel_def threshold_rows tmap_rows
      tbin_rows sum_dim0_rows sum_all_def vec_def fdiv_def upt_conv_Cons
      tp_total_def fn_total_def fp_total_def)

section \<open>Broadcast results are well formed\<close>

lemma length_chunk:
  "length d = a * n \<Longrightarrow> i < a \<Longrightarrow> length (take n (drop (i * n) d)) = n"
proof -
  assume a: "length d = a * n" "i < a"
  then have "Suc i * n \<le> a * n" by (intro mult_le_mono1) simp
  with a show ?thesis by simp
qed

lemma expand_length:
  "list_all2 (\<lambda>a b. a = b \<or> a = 1) p s \<Longrightarrow> length d = prod_list p \<Longrightarrow>
   length (expand p s d) = prod_list s"
proof (induction p s arbitrary: d rule: list_all2_induct)
  case Nil
  then show ?case by simp
next
  case (Cons a p b s)
  let ?n = "prod_list p"
  let ?blocks = "map (\<lambda>i. expand p s (take ?n (drop (i * ?n) d))) [0..<a]"
  have each: "length (expand p s (take ?n (drop (i * ?n) d))) = prod_list s" if "i < a" for i
    using Cons.prems that by (intro Cons.IH length_chunk [of d a]) simp_all
  have "map length ?blocks = replicate a (prod_list s)"
    by (rule nth_equalityI) (simp_all add: each)
  then have cb: "length (concat ?blocks) = a * prod_list s"
    by (simp add: length_concat sum_list_replicate)
  show ?case
  proof (cases "a = b")
    case True
    with cb show ?thesis by (simp add: Let_def)
  next
    case False
    with Cons.hyps have "a = 1" by simp
    with False cb show ?thesis
      by (simp add: Let_def length_concat sum_list_replicate comp_def)
  qed
qed

lemma bshape_rev_compat:
  "bshape_rev xs ys = Some zs \<Longrightarrow>
   list_all2 (\<lambda>a b. a = b \<or> a = 1) (xs @ replicate (length zs - length xs) 1) zs
   \<and> list_all2 (\<lambda>a b. a = b \<or> a = 1) (ys @ replicate (length zs - length ys) 1) zs"
proof (induction xs ys arbitrary: zs rule: bshape_rev.induct)
  case (1 ys)
  then show ?case by (simp add: list_all2_conv_all_nth)
next
  case (2 x xs)
  then show ?case by (simp add: list_all2_conv_all_nth)
next
  case (3 x xs y ys)
  then show ?case by (auto split: if_splits)
qed

lemma bshape_compat:
  assumes "bshape s1 s2 = Some s"
  shows "list_all2 (\<lambda>a b. a = b \<or> a = 1) (pad_shape (length s) s1) s"
    and "list_all2 (\<lambda>a b. a = b \<or> a = 1) (pad_shape (length s) s2) s"
proof -
  from assms obtain zs where zs: "bshape_rev (rev s1) (rev s2) = Some zs" and s: "s = rev zs"
    by (auto simp: bshape_def)
  have r: "pad_shape (length (rev zs)) t = rev (rev t @ replicate (length zs - length (rev t)) 1)" for t
    by (simp add: pad_shape_def)
  note c = bshape_rev_compat [OF zs]
  have "list_all2 (\<lambda>a b. a = b \<or> a = 1) (rev (rev s1 @ replicate (length zs - length (rev s1)) 1)) (rev zs)"
    using c [THEN conjunct1] by (simp only: list_all2_rev)
  then show "list_all2 (\<lambda>a b. a = b \<or> a = 1) (pad_shape (length s) s1) s"
    by (simp only: s r)
  have "list_all2 (\<lambda>a b. a = b \<or> a = 1) (rev (rev s2 @ replicate (length zs - length (rev s2)) 1)) (rev zs)"
    using c [THEN conjunct2] by (simp only: list_all2_rev)
  then show "list_all2 (\<lambda>a b. a = b \<or> a = 1) (pad_shape (length s) s2) s"
    by (simp only: s r)
qed

lemma prod_list_pad: "prod_list (pad_shape r s) = prod_list s"
  by (simp add: pad_shape_def)

lemma broadcast_length:
  "bshape (shape a) (shape b) = Some s \<Longrightarrow> well_formed a \<Longrightarrow> well_formed b \<Longrightarrow>
   length (broadcast_to s a) = prod_list s \<and> length (broadcast_to s b) = prod_list s"
  unfolding broadcast_to_def
  by (auto intro!: expand_length dest: bshape_compat simp: well_formed_def prod_list_pad)

lemma tbin_wf: "tbin f a b = Inr r \<Longrightarrow> well_formed a \<Longrightarrow> well_formed b \<Longrightarrow> well_formed r"
  by (auto simp: tbin_def wf_mk dest: broadcast_length split: option.splits)

section \<open>Comparing along a trailing dimension of size 1\<close>

lemma bshape_unsqueeze:
  "bshape (s1 @ [Suc 0]) (s2 @ [Suc 0]) = map_option (\<lambda>s. s @ [Suc 0]) (bshape s1 s2)"
  by (simp add: bshape_def option.map_comp comp_def)

lemma expand_unsqueeze:
  "length p = length s \<Longrightarrow> length d = prod_list p \<Longrightarrow>
   expand (p @ [Suc 0]) (s @ [Suc 0]) d = expand p s d"
proof (induction p s arbitrary: d rule: list_induct2)
  case Nil
  then show ?case by (simp add: Let_def)
next
  case (Cons a p b s)
  let ?n = "prod_list p"
  have pl: "prod_list (p @ [Suc 0]) = ?n" by simp
  have h: "map (\<lambda>i. expand (p @ [Suc 0]) (s @ [Suc 0]) (take ?n (drop (i * ?n) d))) [0..<a]
        = map (\<lambda>i. expand p s (take ?n (drop (i * ?n) d))) [0..<a]"
  proof (rule map_cong [OF refl])
    fix i assume "i \<in> set [0..<a]"
    then have "length (take ?n (drop (i * ?n) d)) = ?n"
      using Cons.prems by (intro length_chunk [of d a]) simp_all
    then show "expand (p @ [Suc 0]) (s @ [Suc 0]) (take ?n (drop (i * ?n) d))
               = expand p s (take ?n (drop (i * ?n) d))"
      by (rule Cons.IH)
  qed
  show ?case unfolding append_Cons expand.simps Let_def pl h by (rule refl)
qed

lemma pad_shape_unsqueeze: "pad_shape (Suc r) (s @ [Suc 0]) = pad_shape r s @ [Suc 0]"
  by (simp add: pad_shape_def)

lemma broadcast_unsqueeze:
  assumes "well_formed t" "list_all2 (\<lambda>a b. a = b \<or> a = 1) (pad_shape (length s) (shape t)) s"
  shows "broadcast_to (s @ [Suc 0]) (unsqueeze_last t) = broadcast_to s t"
proof -
  have "length (pad_shape (length s) (shape t)) = length s"
    using assms(2) by (rule list_all2_lengthD)
  moreover have "length (elems t) = prod_list (pad_shape (length s) (shape t))"
    using assms(1) by (simp add: well_formed_def prod_list_pad)
  ultimately show ?thesis
    by (simp add: broadcast_to_def unsqueeze_last_def pad_shape_unsqueeze expand_unsqueeze)
qed

lemma tbin_unsqueeze:
  assumes "well_formed a" "well_formed b"
  shows "tbin f (unsqueeze_last a) (unsqueeze_last b)
         = (case tbin f a b of Inl e \<Rightarrow> Inl e | Inr r \<Rightarrow> Inr (unsqueeze_last r))"
proof (cases "bshape (shape a) (shape b)")
  case None
  then show ?thesis by (simp add: tbin_def unsqueeze_last_def bshape_unsqueeze)
next
  case (Some s)
  note c = bshape_compat [OF Some]
  have sh: "shape (unsqueeze_last a) = shape a @ [Suc 0]" "shape (unsqueeze_last b) = shape b @ [Suc 0]"
    by (simp_all add: unsqueeze_last_def)
  show ?thesis
    unfolding tbin_def sh bshape_unsqueeze Some option.map option.case
      broadcast_unsqueeze [OF assms(1) c(1)] broadcast_unsqueeze [OF assms(2) c(2)]
    by (simp add: unsqueeze_last_def)
qed

lemma take1_drop: "i < length d \<Longrightarrow> take (Suc 0) (drop i d) = [d ! i]"
  by (simp add: take_Suc_conv_app_nth)

lemma any_last_unsqueeze:
  assumes "well_formed r"
  shows "any_last (unsqueeze_last r) = r"
proof -
  have "map (list_ex (\<lambda>b. b)) (map (\<lambda>i. take (Suc 0) (drop i (elems r))) [0..<length (elems r)])
        = elems r"
    by (rule nth_equalityI) (simp_all add: take1_drop)
  with assms show ?thesis
    by (simp add: any_last_def unsqueeze_last_def last_rows_def well_formed_def mk_def)
qed

section \<open>Top-1 accuracy\<close>

lemma top1_unique:
  assumes "unique_max xs"
  shows "topk_indices tie (Suc 0) xs = [argmax_list xs]"
proof -
  from assms obtain i where "max_indices xs [0..<length xs] = [i]"
    by (auto simp: unique_max_def length_Suc_conv)
  then show ?thesis by (simp add: topk_indices_def argmax_list_def)
qed

lemma topk_one:
  assumes "shape l \<noteq> []" "0 < last (shape l)" "list_all unique_max (last_rows l)"
  shows "argmax_last l = Inr (mk (butlast (shape l)) (map argmax_list (last_rows l)))"
    and "topk tie l 1 = Inr (unsqueeze_last (mk (butlast (shape l)) (map argmax_list (last_rows l))))"
proof -
  show "argmax_last l = Inr (mk (butlast (shape l)) (map argmax_list (last_rows l)))"
    using assms(1,2) by (simp add: argmax_last_def)
  have h: "map (topk_indices tie (Suc 0)) (last_rows l) = map (\<lambda>r. [argmax_list r]) (last_rows l)"
    using assms(3) by (intro map_cong [OF refl] top1_unique) (simp add: list_all_iff)
  have "concat (map (topk_indices tie (Suc 0)) (last_rows l)) = map argmax_list (last_rows l)"
    unfolding h by simp
  then show "topk tie l 1 = Inr (unsqueeze_last (mk (butlast (shape l)) (map argmax_list (last_rows l))))"
    using assms(1,2) by (simp add: topk_def unsqueeze_last_def)
qed

lemma length_last_rows: "length (last_rows t) = prod_list (butlast (shape t))"
  by (simp add: last_rows_def Let_def)

lemma score_top1_is_topk:
  assumes "shape l \<noteq> []" "0 < last (shape l)" "list_all unique_max (last_rows l)"
      and "well_formed y"
  shows "score_topk tie 1 l y = score_top1 l y"
proof -
  let ?pred = "mk (butlast (shape l)) (map argmax_list (last_rows l))"
  have wp: "well_formed ?pred" by (simp add: wf_mk length_last_rows)
  have wy: "well_formed (flatten y)"
    using assms(4) by (simp add: flatten_def wf_mk well_formed_def numel_def)
  show ?thesis
  proof (cases "tbin (\<lambda>p t. real p = t) ?pred (flatten y)")
    case (Inl e)
    then show ?thesis
      unfolding score_topk_def score_top1_def Let_def topk_one [OF assms(1-3)] ebind_Inr
        tbin_unsqueeze [OF wp wy]
      by simp
  next
    case (Inr r)
    from tbin_wf [OF Inr wp wy] have "any_last (unsqueeze_last r) = r"
      by (rule any_last_unsqueeze)
    with Inr show ?thesis
      unfolding score_topk_def score_top1_def Let_def topk_one [OF assms(1-3)] ebind_Inr
        tbin_unsqueeze [OF wp wy]
      by simp
  qed
qed

lemma prod_list_butlast_last: "s \<noteq> [] \<Longrightarrow> prod_list s = prod_list (butlast s) * last s"
  by (induction s) (auto simp: mult.assoc)

lemma view_rows_cases:
  "view_rows t = Inl IndexError \<and> shape t = []
   \<or> view_rows t = Inl RuntimeError \<and> shape t \<noteq> [] \<and> last (shape t) = 0
   \<or> view_rows t = Inr (mk [prod_list (butlast (shape t)), last (shape t)] (elems t))
       \<and> shape t \<noteq> [] \<and> 0 < last (shape t)"
  by (auto simp: view_rows_def Let_def numel_def prod_list_butlast_last)

lemma last_rows_view:
  "last_rows (mk [prod_list (butlast (shape t)), last (shape t)] (elems t)) = last_rows t"
  by (simp add: last_rows_def)

lemma mixup_target_wf:
  "mixup_target n y = Inr y' \<Longrightarrow> well_formed y \<Longrightarrow> well_formed y'"
  by (auto simp: mixup_target_def argmax_last_def ebind_def well_formed_def tmap_def
      length_last_rows split: if_splits)

text \<open>
  Claim C10. When every row of the flattened logits has a unique maximum,
  \<^verbatim>\<open>accuracy_at_k\<close> with \<open>k = 1\<close> and \<^verbatim>\<open>accuracy\<close> return the same result, for
  every target and whichever index \<^verbatim>\<open>topk\<close> prefers among equal values.
\<close>

theorem accuracy_at_1_is_accuracy:
  assumes "list_all unique_max (last_rows logits)" "well_formed y"
  shows "accuracy_at_k tie logits y 1 = accuracy logits y"
proof -
  let ?l = "mk [prod_list (butlast (shape logits)), last (shape logits)] (elems logits)"
  from view_rows_cases [of logits] consider
      "view_rows logits = Inl IndexError" | "view_rows logits = Inl RuntimeError"
    | "view_rows logits = Inr ?l" "0 < last (shape logits)"
    by (elim disjE conjE)
  then show ?thesis
  proof cases
    case 1
    then show ?thesis by (simp add: accuracy_def accuracy_at_k_def)
  next
    case 2
    then show ?thesis by (simp add: accuracy_def accuracy_at_k_def)
  next
    case 3
    have l: "shape ?l \<noteq> []" "0 < last (shape ?l)" "list_all unique_max (last_rows ?l)"
      using 3(2) assms(1) by (simp_all add: last_rows_view)
    show ?thesis
    proof (cases "mixup_target (hd (shape ?l)) y")
      case (Inl e)
      then show ?thesis by (simp add: accuracy_def accuracy_at_k_def 3(1))
    next
      case (Inr y')
      from mixup_target_wf [OF Inr assms(2)] have "score_topk tie 1 ?l y' = score_top1 ?l y'"
        by (rule score_top1_is_topk [OF l])
      with Inr show ?thesis by (simp add: accuracy_def accuracy_at_k_def 3(1))
    qed
  qed
qed

lemmas eval_accuracy =
  accuracy_def view_rows_def numel_def mixup_target_def score_top1_def flatten_def
  argmax_last_def last_rows_def argmax_list_def max_indices_def tbin_mk_same float_mean_def
  mean_def upt_conv_Cons Let_def

lemma toy_unique: "list_all unique_max (last_rows (mk [2, 3] [1, 9, 5, 8, 2, 1]))"
  by (simp add: unique_max_def last_rows_def max_indices_def upt_conv_Cons)

lemma toy_top1: "accuracy (mk [2, 3] [1, 9, 5, 8, 2, 1]) (mk [2] [1, 1]) = Inr (Fin (1 / 2))"
  by (simp add: eval_accuracy)

theorem accuracy_at_1_is_accuracy_witness:
  "accuracy_at_k (\<lambda>_. 0) (mk [2, 3] [1, 9, 5, 8, 2, 1]) (mk [2] [1, 1]) 1 = Inr (Fin (1 / 2))
   \<and> accuracy (mk [2, 3] [1, 9, 5, 8, 2, 1]) (mk [2] [1, 1]) = Inr (Fin (1 / 2))"
proof -
  have "well_formed (mk [2] [1, 1 :: real])" by (simp add: wf_mk)
  from accuracy_at_1_is_accuracy [OF toy_unique this, of "\<lambda>_. 0"] toy_top1
  show ?thesis by simp
qed

section \<open>The Mixup branch\<close>





























end
